theory Spec2Isabelle
  imports Complex_Main "HOL-Library.Sublist"
begin

section \<open>Python values\<close>

text \<open>
  A Python \<^verbatim>\<open>str\<close> is a sequence of Unicode code points, so it is modelled as a list of
  naturals. The fixed texts of \<^verbatim>\<open>koyeb.py\<close> are written with \<open>ascii\<close> for their ASCII runs
  and with explicit code points for the Chinese text and the emoji.
\<close>

type_synonym str = "nat list"

definition ascii :: "string \<Rightarrow> str" where
  "ascii cs = map of_char cs"

text \<open>\<^verbatim>\<open>str(n)\<close> for a non-negative integer: its decimal digits.\<close>

fun dec :: "nat \<Rightarrow> str" where
  "dec n = (if n < 10 then [48 + n] else dec (n div 10) @ [48 + n mod 10])"

declare dec.simps [simp del]

text \<open>
  \<^verbatim>\<open>str.isspace\<close> on one code point (the white-space table of CPython), and
  \<^verbatim>\<open>str.strip()\<close> without arguments.
\<close>

definition isspace :: "nat \<Rightarrow> bool" where
  "isspace c \<longleftrightarrow>
     (0x9 \<le> c \<and> c \<le> 0xD) \<or> (0x1C \<le> c \<and> c \<le> 0x20) \<or> c = 0x85 \<or> c = 0xA0 \<or>
     c = 0x1680 \<or> (0x2000 \<le> c \<and> c \<le> 0x200A) \<or> c = 0x2028 \<or> c = 0x2029 \<or>
     c = 0x202F \<or> c = 0x205F \<or> c = 0x3000"

definition strip :: "str \<Rightarrow> str" where
  "strip s = rev (dropWhile isspace (rev (dropWhile isspace s)))"

text \<open>\<^verbatim>\<open>sep.join(xs)\<close>.\<close>

fun join :: "str \<Rightarrow> str list \<Rightarrow> str" where
  "join sep [] = []"
| "join sep [x] = x"
| "join sep (x # y # ys) = x @ sep @ join sep (y # ys)"

text \<open>
  What \<^verbatim>\<open>json.loads\<close> returns. A dict is an association list read with \<open>map_of\<close>;
  a float is a finite number, an infinity or NaN.
\<close>

datatype pyfloat = Finite real | PosInf | NegInf | NaN

datatype json =
    JNull
  | JBool bool
  | JInt int
  | JFloat pyfloat
  | JStr str
  | JArr "json list"
  | JObj "(str \<times> json) list"

text \<open>Python truth of a value, as \<^verbatim>\<open>not x\<close> and \<^verbatim>\<open>x or y\<close> test it.\<close>

fun truthy :: "json \<Rightarrow> bool" where
  "truthy JNull = False"
| "truthy (JBool b) = b"
| "truthy (JInt i) = (i \<noteq> 0)"
| "truthy (JFloat f) = (f \<noteq> Finite 0)"
| "truthy (JStr s) = (s \<noteq> [])"
| "truthy (JArr xs) = (xs \<noteq> [])"
| "truthy (JObj kvs) = (kvs \<noteq> [])"

definition por :: "json \<Rightarrow> json \<Rightarrow> json" where
  "por a b = (if truthy a then a else b)"

fun type_name :: "json \<Rightarrow> str" where
  "type_name JNull = ascii ''NoneType''"
| "type_name (JBool b) = ascii ''bool''"
| "type_name (JInt i) = ascii ''int''"
| "type_name (JFloat f) = ascii ''float''"
| "type_name (JStr s) = ascii ''str''"
| "type_name (JArr xs) = ascii ''list''"
| "type_name (JObj kvs) = ascii ''dict''"

text \<open>\<^verbatim>\<open>d.get(k)\<close> and \<^verbatim>\<open>d.get(k, default)\<close> on a dict.\<close>

definition dict_get :: "(str \<times> json) list \<Rightarrow> str \<Rightarrow> json \<Rightarrow> json" where
  "dict_get kvs k dflt = (case map_of kvs k of None \<Rightarrow> dflt | Some v \<Rightarrow> v)"

text \<open>Exceptions, each with the text that \<^verbatim>\<open>str(e)\<close> gives.\<close>

datatype exn =
    ValueError str
  | TypeError str
  | AttributeError str
  | OverflowError str
  | JSONDecodeError str
  | RecursionError str
  | OtherError str

fun exn_str :: "exn \<Rightarrow> str" where
  "exn_str (ValueError m) = m"
| "exn_str (TypeError m) = m"
| "exn_str (AttributeError m) = m"
| "exn_str (OverflowError m) = m"
| "exn_str (JSONDecodeError m) = m"
| "exn_str (RecursionError m) = m"
| "exn_str (OtherError m) = m"

definition no_attribute :: "json \<Rightarrow> string \<Rightarrow> exn" where
  "no_attribute v attr =
     AttributeError (ascii [CHR 0x27] @ type_name v @ ascii [CHR 0x27] @
                     ascii '' object has no attribute '' @
                     ascii [CHR 0x27] @ ascii attr @ ascii [CHR 0x27])"

text \<open>\<^verbatim>\<open>for account in v\<close>: the elements of a list, the keys of a dict, the characters of a
  string; anything else is not iterable.\<close>

fun py_iter :: "json \<Rightarrow> exn + json list" where
  "py_iter (JArr xs) = Inr xs"
| "py_iter (JObj kvs) = Inr (map (\<lambda>kv. JStr (fst kv)) kvs)"
| "py_iter (JStr s) = Inr (map (\<lambda>c. JStr [c]) s)"
| "py_iter v =
     Inl (TypeError (ascii [CHR 0x27] @ type_name v @ ascii [CHR 0x27] @
                     ascii '' object is not iterable''))"

section \<open>The outside world\<close>

text \<open>
  Everything the script does to the outside is an event of the run's trace: a log record,
  a call of \<^verbatim>\<open>requests.get\<close> or \<^verbatim>\<open>requests.post\<close> (URL, headers or form fields, timeout
  in seconds) and a call of \<^verbatim>\<open>time.sleep\<close>.
\<close>

datatype level = INFO | WARNING | ERROR

datatype event =
    Log level str
  | HttpGet str "(str \<times> str) list" nat
  | HttpPost str "(str \<times> str) list" nat
  | Sleep nat

text \<open>
  How a call of \<^verbatim>\<open>requests.get\<close> or \<^verbatim>\<open>requests.post\<close> ends: with a response (status code,
  reason phrase, final URL), with \<^verbatim>\<open>requests.Timeout\<close>, with another
  \<^verbatim>\<open>requests.RequestException\<close>, or with an exception outside that hierarchy (for
  example the \<^verbatim>\<open>UnicodeEncodeError\<close> of a header or form value that cannot be encoded).
  Each fault carries its \<^verbatim>\<open>str(e)\<close>.
\<close>

datatype reply =
    Response nat str str
  | TimeoutFault str
  | RequestFault str
  | OtherFault str

record datetime =
  year :: nat
  month :: nat
  day :: nat
  hour :: nat
  minute :: nat

text \<open>
  The parts of a run that the script does not decide: the process environment,
  \<^verbatim>\<open>json.loads\<close> (the value it returns or the exception it raises: a
  \<^verbatim>\<open>JSONDecodeError\<close> for a text that is not JSON, but also a plain \<^verbatim>\<open>ValueError\<close> for
  an integer of more than 4300 digits or a \<^verbatim>\<open>RecursionError\<close> for deep nesting), the
  clock read by \<^verbatim>\<open>datetime.utcnow()\<close>, the network (the reply to a request, given the
  trace that ends with it) and Python's formatting of a value that is not a string.
\<close>

record world =
  getenv :: "str \<Rightarrow> str option"
  json_loads :: "str \<Rightarrow> exn + json"
  utcnow :: datetime
  http :: "event list \<Rightarrow> reply"
  py_format :: "json \<Rightarrow> str"

text \<open>\<^verbatim>\<open>f"{v}"\<close>: a string is inserted as it is.\<close>

definition fmt :: "world \<Rightarrow> json \<Rightarrow> str" where
  "fmt w v = (case v of JStr s \<Rightarrow> s | _ \<Rightarrow> py_format w v)"

text \<open>
  \<^verbatim>\<open>Response.raise_for_status()\<close> of the requests library: \<open>Some\<close> the message of the
  \<^verbatim>\<open>HTTPError\<close> it raises for a status from 400 to 599, \<open>None\<close> when it returns.
\<close>

definition raise_for_status :: "nat \<Rightarrow> str \<Rightarrow> str \<Rightarrow> str option" where
  "raise_for_status status reason url =
     (if 400 \<le> status \<and> status < 500
        then Some (dec status @ ascii '' Client Error: '' @ reason @ ascii '' for url: '' @ url)
      else if 500 \<le> status \<and> status < 600
        then Some (dec status @ ascii '' Server Error: '' @ reason @ ascii '' for url: '' @ url)
      else None)"

section \<open>check_koyeb_with_token\<close>

definition koyeb_url :: str where
  "koyeb_url = ascii ''https://app.koyeb.com/v1/apps''"

definition koyeb_headers :: "str \<Rightarrow> (str \<times> str) list" where
  "koyeb_headers token =
     [(ascii ''Authorization'', ascii ''Bearer '' @ token),
      (ascii ''Accept'', ascii ''application/json''),
      (ascii ''User-Agent'', ascii ''KoyebKeepAliveScript/1.0'')]"

definition koyeb_request :: "str \<Rightarrow> event" where
  "koyeb_request token = HttpGet koyeb_url (koyeb_headers token) 30"

definition token_empty_text :: str where
  "token_empty_text = ascii ''Token '' @ [0x4E3A, 0x7A7A]"

definition token_ok_text :: str where
  "token_ok_text = ascii ''Token '' @ [0x6821, 0x9A8C, 0x6210, 0x529F]"

definition timeout_text :: str where
  "timeout_text = [0x8BF7, 0x6C42, 0x8D85, 0x65F6]"

text \<open>
  The function takes the trace so far and returns the extended trace with either the pair
  \<^verbatim>\<open>(success, message)\<close> or the exception that leaves it.
\<close>

definition check_koyeb_with_token ::
    "world \<Rightarrow> event list \<Rightarrow> json \<Rightarrow> str \<Rightarrow> event list \<times> (exn + bool \<times> str)" where
  "check_koyeb_with_token w tr name token =
     (if token = [] then (tr, Inr (False, token_empty_text))
      else
        let tr1 = tr @ [koyeb_request token] in
        case http w tr1 of
          Response status reason url \<Rightarrow>
            (case raise_for_status status reason url of
               None \<Rightarrow> (tr1, Inr (True, token_ok_text))
             | Some m \<Rightarrow> (tr1, Inr (False, m)))
        | TimeoutFault m \<Rightarrow> (tr1, Inr (False, timeout_text))
        | RequestFault m \<Rightarrow> (tr1, Inr (False, m))
        | OtherFault m \<Rightarrow> (tr1, Inl (OtherError m)))"

section \<open>validate_env_variables\<close>

definition env_missing_text :: str where
  "env_missing_text = [0x274C] @ ascii '' KOYEB_ACCOUNTS '' @ [0x73AF, 0x5883, 0x53D8, 0x91CF, 0x672A, 0x8BBE, 0x7F6E, 0x6216, 0x683C, 0x5F0F, 0x9519, 0x8BEF]"

definition env_invalid_text :: str where
  "env_invalid_text = [0x274C] @ ascii '' KOYEB_ACCOUNTS JSON '' @ [0x683C, 0x5F0F, 0x65E0, 0x6548]"

definition validate_env_variables :: "world \<Rightarrow> exn + json" where
  "validate_env_variables w =
     (case getenv w (ascii ''KOYEB_ACCOUNTS'') of
        None \<Rightarrow> Inl (ValueError env_missing_text)
      | Some koyeb_accounts_env \<Rightarrow>
          if koyeb_accounts_env = [] then Inl (ValueError env_missing_text)
          else
            (case json_loads w koyeb_accounts_env of
               Inl (JSONDecodeError m) \<Rightarrow> Inl (ValueError env_invalid_text)
             | Inl e \<Rightarrow> Inl e
             | Inr v \<Rightarrow> Inr v))"

section \<open>send_tg_message\<close>

definition tg_skip_text :: str where
  "tg_skip_text = [0x26A0, 0xFE0F] @ ascii '' TG_BOT_TOKEN '' @ [0x6216] @ ascii '' TG_CHAT_ID '' @ [0x672A, 0x8BBE, 0x7F6E, 0xFF0C, 0x8DF3, 0x8FC7] @ ascii '' Telegram '' @ [0x901A, 0x77E5]"

definition tg_ok_text :: str where
  "tg_ok_text = [0x2705] @ ascii '' Telegram '' @ [0x6D88, 0x606F, 0x53D1, 0x9001, 0x6210, 0x529F]"

definition tg_fail_text :: str where
  "tg_fail_text = [0x274C] @ ascii '' '' @ [0x53D1, 0x9001] @ ascii '' Telegram '' @ [0x6D88, 0x606F, 0x5931, 0x8D25] @ ascii '': ''"

definition tg_request :: "str \<Rightarrow> str \<Rightarrow> str \<Rightarrow> event" where
  "tg_request bot_token chat_id message =
     HttpPost (ascii ''https://api.telegram.org/bot'' @ bot_token @ ascii ''/sendMessage'')
       [(ascii ''chat_id'', chat_id),
        (ascii ''text'', message),
        (ascii ''parse_mode'', ascii ''Markdown'')]
       30"

text \<open>\<^verbatim>\<open>not v\<close> for the result of \<^verbatim>\<open>os.getenv\<close>: the variable is unset or empty.\<close>

definition env_value :: "str option \<Rightarrow> str" where
  "env_value v = (case v of None \<Rightarrow> [] | Some s \<Rightarrow> s)"

text \<open>
  The function returns the extended trace and the exception that leaves it, if any: a
  fault of \<^verbatim>\<open>requests.post\<close> that is not a \<^verbatim>\<open>RequestException\<close> is not caught here.
\<close>

definition send_tg_message :: "world \<Rightarrow> event list \<Rightarrow> str \<Rightarrow> event list \<times> exn option" where
  "send_tg_message w tr message =
     (let bot_token = env_value (getenv w (ascii ''TG_BOT_TOKEN''));
          chat_id = env_value (getenv w (ascii ''TG_CHAT_ID''))
      in
        if bot_token = [] \<or> chat_id = [] then (tr @ [Log WARNING tg_skip_text], None)
        else
          let tr1 = tr @ [tg_request bot_token chat_id message] in
          case http w tr1 of
            Response status reason url \<Rightarrow>
              (case raise_for_status status reason url of
                 None \<Rightarrow> (tr1 @ [Log INFO tg_ok_text], None)
               | Some m \<Rightarrow> (tr1 @ [Log ERROR (tg_fail_text @ m)], None))
          | TimeoutFault m \<Rightarrow> (tr1 @ [Log ERROR (tg_fail_text @ m)], None)
          | RequestFault m \<Rightarrow> (tr1 @ [Log ERROR (tg_fail_text @ m)], None)
          | OtherFault m \<Rightarrow> (tr1, Some (OtherError m)))"

section \<open>The clock\<close>

text \<open>
  \<^verbatim>\<open>datetime.utcnow() + timedelta(hours=8)\<close> on the proleptic Gregorian calendar, and
  \<^verbatim>\<open>strftime("%Y-%m-%d %H:%M")\<close>. A date after the year 9999 is \<^verbatim>\<open>OverflowError\<close>.
  The C library prints \<^verbatim>\<open>%Y\<close> without padding (the year 999 as \<^verbatim>\<open>999\<close>) and the other
  fields with two digits.
\<close>

definition is_leap :: "nat \<Rightarrow> bool" where
  "is_leap y \<longleftrightarrow> y mod 4 = 0 \<and> (y mod 100 \<noteq> 0 \<or> y mod 400 = 0)"

definition days_in_month :: "nat \<Rightarrow> nat \<Rightarrow> nat" where
  "days_in_month y m =
     (if m = 2 then (if is_leap y then 29 else 28)
      else if m = 4 \<or> m = 6 \<or> m = 9 \<or> m = 11 then 30
      else 31)"

definition valid_datetime :: "datetime \<Rightarrow> bool" where
  "valid_datetime t \<longleftrightarrow>
     1 \<le> year t \<and> year t \<le> 9999 \<and> 1 \<le> month t \<and> month t \<le> 12 \<and>
     1 \<le> day t \<and> day t \<le> days_in_month (year t) (month t) \<and>
     hour t < 24 \<and> minute t < 60"

definition date_overflow_text :: str where
  "date_overflow_text = ascii ''date value out of range''"

definition next_day :: "datetime \<Rightarrow> exn + datetime" where
  "next_day t =
     (if day t < days_in_month (year t) (month t) then Inr (t\<lparr>day := day t + 1\<rparr>)
      else if month t < 12 then Inr (t\<lparr>month := month t + 1, day := 1\<rparr>)
      else if year t < 9999 then Inr (t\<lparr>year := year t + 1, month := 1, day := 1\<rparr>)
      else Inl (OverflowError date_overflow_text))"

text \<open>Adding \<open>h\<close> hours, for \<open>h\<close> up to 24 (the script adds 8).\<close>

definition plus_hours :: "datetime \<Rightarrow> nat \<Rightarrow> exn + datetime" where
  "plus_hours t h =
     (if hour t + h < 24 then Inr (t\<lparr>hour := hour t + h\<rparr>)
      else
        (case next_day t of
           Inl e \<Rightarrow> Inl e
         | Inr t' \<Rightarrow> Inr (t'\<lparr>hour := hour t + h - 24\<rparr>)))"

definition zfill :: "nat \<Rightarrow> str \<Rightarrow> str" where
  "zfill k s = replicate (k - length s) 48 @ s"

definition strftime :: "datetime \<Rightarrow> str" where
  "strftime t =
     dec (year t) @ ascii ''-'' @ zfill 2 (dec (month t)) @ ascii ''-'' @
     zfill 2 (dec (day t)) @ ascii '' '' @ zfill 2 (dec (hour t)) @ ascii '':'' @
     zfill 2 (dec (minute t))"

section \<open>main\<close>

definition no_accounts_text :: str where
  "no_accounts_text = [0x274C] @ ascii '' '' @ [0x6CA1, 0x6709, 0x627E, 0x5230, 0x6709, 0x6548, 0x7684] @ ascii '' Koyeb '' @ [0x8D26, 0x6237, 0x4FE1, 0x606F]"

definition unnamed_text :: str where
  "unnamed_text = [0x672A, 0x547D, 0x540D, 0x8D26, 0x53F7]"

definition skip_log :: "str \<Rightarrow> str" where
  "skip_log name = [0x26A0, 0xFE0F] @ ascii '' '' @ [0x8D26, 0x6237] @ ascii '' '' @ name @ ascii '' '' @ [0x6CA1, 0x6709, 0x914D, 0x7F6E] @ ascii '' token'' @ [0xFF0C, 0x8DF3, 0x8FC7]"

definition skip_entry :: "str \<Rightarrow> str" where
  "skip_entry name = [0x26A0, 0xFE0F] @ ascii '' '' @ [0x8D26, 0x6237] @ ascii '': '' @ name @ [0xA] @ ascii ''Token '' @ [0x672A, 0x914D, 0x7F6E, 0xFF0C, 0x8DF3, 0x8FC7]"

definition checking_log :: "str \<Rightarrow> str" where
  "checking_log name = [0x1F50D] @ ascii '' '' @ [0x6B63, 0x5728, 0x68C0, 0x67E5, 0x8D26, 0x6237] @ ascii '': '' @ name"

definition success_entry :: "str \<Rightarrow> str" where
  "success_entry name = [0x2705] @ ascii '' '' @ [0x8D26, 0x6237] @ ascii '': '' @ name @ ascii '' Token '' @ [0x6821, 0x9A8C, 0x6210, 0x529F]"

definition failure_entry :: "str \<Rightarrow> str \<Rightarrow> str" where
  "failure_entry name message = [0x274C] @ ascii '' '' @ [0x8D26, 0x6237] @ ascii '': '' @ name @ ascii '' Token '' @ [0x6821, 0x9A8C, 0x5931, 0x8D25] @ ascii '' | '' @ [0x539F, 0x56E0] @ ascii '': '' @ message"

definition summary_header :: str where
  "summary_header = [0x23F0] @ ascii '' '' @ [0x5317, 0x4EAC, 0x65F6, 0x95F4] @ ascii '': ''"

definition summary_footer :: str where
  "summary_footer = [0xA, 0xA, 0x2705] @ ascii '' '' @ [0x4EFB, 0x52A1, 0x6267, 0x884C, 0x5B8C, 0x6210]"

definition summary_text :: "str \<Rightarrow> str list \<Rightarrow> str" where
  "summary_text current_time messages =
     summary_header @ current_time @ [0xA, 0xA] @ join [0xA] messages @ summary_footer"

definition done_log :: str where
  "done_log = [0x1F4DD] @ ascii '' '' @ [0x4EFB, 0x52A1, 0x5B8C, 0x6210, 0xFF0C, 0x53D1, 0x9001] @ ascii '' Telegram '' @ [0x901A, 0x77E5]"

definition error_prefix :: str where
  "error_prefix = [0x274C] @ ascii '' '' @ [0x811A, 0x672C, 0x6267, 0x884C, 0x51FA, 0x9519] @ ascii '': ''"

text \<open>\<^verbatim>\<open>account.get("name") or account.get("email") or ...\<close>, for a dict.\<close>

definition account_name :: "(str \<times> json) list \<Rightarrow> json" where
  "account_name kvs =
     por (por (dict_get kvs (ascii ''name'') JNull) (dict_get kvs (ascii ''email'') JNull))
         (JStr unnamed_text)"

text \<open>\<^verbatim>\<open>account.get("token", "").strip()\<close>, for a dict: only a string has \<^verbatim>\<open>strip\<close>.\<close>

definition account_token :: "(str \<times> json) list \<Rightarrow> exn + str" where
  "account_token kvs =
     (case dict_get kvs (ascii ''token'') (JStr []) of
        JStr s \<Rightarrow> Inr (strip s)
      | v \<Rightarrow> Inl (no_attribute v ''strip''))"

text \<open>
  One pass of the loop body: the extended trace, with the entry appended to
  \<^verbatim>\<open>messages\<close> or the exception that leaves the loop.
\<close>

definition process_account :: "world \<Rightarrow> event list \<Rightarrow> json \<Rightarrow> event list \<times> (exn + str)" where
  "process_account w tr account =
     (case account of
        JObj kvs \<Rightarrow>
          (let name = account_name kvs in
           case account_token kvs of
             Inl e \<Rightarrow> (tr, Inl e)
           | Inr token \<Rightarrow>
               if token = [] then
                 (tr @ [Log WARNING (skip_log (fmt w name))], Inr (skip_entry (fmt w name)))
               else
                 (case check_koyeb_with_token w (tr @ [Log INFO (checking_log (fmt w name))])
                         name token of
                    (tr2, Inl e) \<Rightarrow> (tr2, Inl e)
                  | (tr2, Inr (success, message)) \<Rightarrow>
                      (tr2 @ [Sleep 5],
                       Inr (if success then success_entry (fmt w name)
                            else failure_entry (fmt w name) message))))
      | v \<Rightarrow> (tr, Inl (no_attribute v ''get'')))"

text \<open>The \<^verbatim>\<open>for\<close> loop, threading the trace and the list \<^verbatim>\<open>messages\<close>.\<close>

fun run_accounts ::
    "world \<Rightarrow> event list \<Rightarrow> str list \<Rightarrow> json list \<Rightarrow> event list \<times> (exn + str list)" where
  "run_accounts w tr messages [] = (tr, Inr messages)"
| "run_accounts w tr messages (account # rest) =
     (case process_account w tr account of
        (tr', Inl e) \<Rightarrow> (tr', Inl e)
      | (tr', Inr entry) \<Rightarrow> run_accounts w tr' (messages @ [entry]) rest)"

text \<open>The \<^verbatim>\<open>except Exception\<close> handler of \<^verbatim>\<open>main\<close>.\<close>

definition error_message :: "exn \<Rightarrow> str" where
  "error_message e = error_prefix @ exn_str e"

definition handle_error :: "world \<Rightarrow> event list \<Rightarrow> exn \<Rightarrow> event list \<times> exn option" where
  "handle_error w tr e =
     send_tg_message w (tr @ [Log ERROR (error_message e)]) (error_message e)"

text \<open>
  The body of the \<^verbatim>\<open>try\<close> block of \<^verbatim>\<open>main\<close> up to the assignment of \<^verbatim>\<open>summary\<close>:
  the trace so far, with the summary or the exception raised on the way.
\<close>

definition build_summary :: "world \<Rightarrow> event list \<times> (exn + str)" where
  "build_summary w =
     (case validate_env_variables w of
        Inl e \<Rightarrow> ([], Inl e)
      | Inr koyeb_accounts \<Rightarrow>
          if \<not> truthy koyeb_accounts then ([], Inl (ValueError no_accounts_text))
          else
            (case plus_hours (utcnow w) 8 of
               Inl e \<Rightarrow> ([], Inl e)
             | Inr t \<Rightarrow>
                 (case py_iter koyeb_accounts of
                    Inl e \<Rightarrow> ([], Inl e)
                  | Inr accounts \<Rightarrow>
                      (case run_accounts w [] [] accounts of
                         (tr, Inl e) \<Rightarrow> (tr, Inl e)
                       | (tr, Inr messages) \<Rightarrow>
                           (tr, Inr (summary_text (strftime t) messages))))))"

text \<open>
  \<^verbatim>\<open>main\<close>: the trace of the run, and the exception that leaves \<^verbatim>\<open>main\<close> if there is
  one. The call that sends the summary is inside the \<^verbatim>\<open>try\<close> block, so an exception
  leaving it reaches the handler too.
\<close>

definition main :: "world \<Rightarrow> event list \<times> exn option" where
  "main w =
     (case build_summary w of
        (tr, Inl e) \<Rightarrow> handle_error w tr e
      | (tr, Inr summary) \<Rightarrow>
          (case send_tg_message w (tr @ [Log INFO done_log]) summary of
             (tr', Some e) \<Rightarrow> handle_error w tr' e
           | (tr', None) \<Rightarrow> (tr', None)))"

section \<open>Reading a trace\<close>

fun is_get :: "event \<Rightarrow> bool" where
  "is_get (HttpGet url headers timeout) = True"
| "is_get e = False"

fun is_post :: "event \<Rightarrow> bool" where
  "is_post (HttpPost url data timeout) = True"
| "is_post e = False"

text \<open>
  Every call of \<open>send_tg_message\<close> leaves exactly one of two events: the call of
  \<^verbatim>\<open>requests.post\<close>, or the warning that the credentials are not set.
\<close>

definition is_notification :: "event \<Rightarrow> bool" where
  "is_notification e \<longleftrightarrow> is_post e \<or> e = Log WARNING tg_skip_text"

text \<open>
  The pauses between successive account checks: for every \<^verbatim>\<open>requests.get\<close> after the
  first, the sum of the \<^verbatim>\<open>time.sleep\<close> calls since the one before it.
\<close>

fun pauses_from :: "nat option \<Rightarrow> event list \<Rightarrow> nat list" where
  "pauses_from acc [] = []"
| "pauses_from acc (HttpGet url headers timeout # es) =
     (case acc of None \<Rightarrow> [] | Some d \<Rightarrow> [d]) @ pauses_from (Some 0) es"
| "pauses_from acc (Sleep d # es) = pauses_from (map_option (\<lambda>a. a + d) acc) es"
| "pauses_from acc (e # es) = pauses_from acc es"

definition pauses :: "event list \<Rightarrow> nat list" where
  "pauses tr = pauses_from None tr"

text \<open>
  What \<open>pauses_from\<close> carries at the end of a trace: \<open>None\<close> before the first check,
  otherwise the sleep summed since the last one.
\<close>

fun pause_state :: "nat option \<Rightarrow> event list \<Rightarrow> nat option" where
  "pause_state acc [] = acc"
| "pause_state acc (HttpGet url headers timeout # es) = pause_state (Some 0) es"
| "pause_state acc (Sleep d # es) = pause_state (map_option (\<lambda>a. a + d) acc) es"
| "pause_state acc (e # es) = pause_state acc es"

text \<open>
  After a trace the loop is rested when no check has been made yet or the last check has
  been followed by its five seconds.
\<close>

definition rested :: "event list \<Rightarrow> bool" where
  "rested tr \<longleftrightarrow> pause_state None tr = None \<or> pause_state None tr = Some 5"

text \<open>The lines of a text, as \<^verbatim>\<open>s.split("\n")\<close> gives them.\<close>

fun split_lines :: "str \<Rightarrow> str list" where
  "split_lines [] = [[]]"
| "split_lines (c # cs) =
     (if c = 0xA then [] # split_lines cs
      else (case split_lines cs of [] \<Rightarrow> [[c]] | l # ls \<Rightarrow> (c # l) # ls))"

text \<open>
  The entry of \<^verbatim>\<open>messages\<close> that belongs to an account, with the texts of the script.
  For an account whose stripped token is empty it is the account line and the line "Token
  not configured, skipped"; it is two lines when the name has no line break. For any other
  account it is the success line or a failure line that goes on with the reason; it is one
  line when it has no line break.
\<close>

definition is_entry_of :: "world \<Rightarrow> json \<Rightarrow> str \<Rightarrow> bool" where
  "is_entry_of w account entry =
     (case account of
        JObj kvs \<Rightarrow>
          (let name = fmt w (account_name kvs) in
           if account_token kvs = Inr [] then
             entry = [0x26A0, 0xFE0F] @ ascii '' '' @ [0x8D26, 0x6237] @ ascii '': '' @ name @ [0xA] @ ascii ''Token '' @ [0x672A, 0x914D, 0x7F6E, 0xFF0C, 0x8DF3, 0x8FC7] \<and>
             (0xA \<notin> set name \<longrightarrow>
                split_lines entry =
                  [[0x26A0, 0xFE0F] @ ascii '' '' @ [0x8D26, 0x6237] @ ascii '': '' @ name,
                   ascii ''Token '' @ [0x672A, 0x914D, 0x7F6E, 0xFF0C, 0x8DF3, 0x8FC7]])
           else
             (entry = [0x2705] @ ascii '' '' @ [0x8D26, 0x6237] @ ascii '': '' @ name @ ascii '' Token '' @ [0x6821, 0x9A8C, 0x6210, 0x529F] \<or>
              prefix ([0x274C] @ ascii '' '' @ [0x8D26, 0x6237] @ ascii '': '' @ name @ ascii '' Token '' @ [0x6821, 0x9A8C, 0x5931, 0x8D25] @ ascii '' | '' @ [0x539F, 0x56E0] @ ascii '': '') entry) \<and>
             (0xA \<notin> set entry \<longrightarrow> split_lines entry = [entry]))
      | _ \<Rightarrow> False)"

text \<open>The shape \<^verbatim>\<open>YYYY-MM-DD HH:MM\<close>.\<close>

definition is_digit :: "nat \<Rightarrow> bool" where
  "is_digit c \<longleftrightarrow> 48 \<le> c \<and> c \<le> 57"

definition ymd_hm_shape :: "str \<Rightarrow> bool" where
  "ymd_hm_shape s \<longleftrightarrow>
     length s = 16 \<and>
     list_all is_digit (take 4 s) \<and> s ! 4 = 45 \<and>
     list_all is_digit (take 2 (drop 5 s)) \<and> s ! 7 = 45 \<and>
     list_all is_digit (take 2 (drop 8 s)) \<and> s ! 10 = 32 \<and>
     list_all is_digit (take 2 (drop 11 s)) \<and> s ! 13 = 58 \<and>
     list_all is_digit (drop 14 s)"

section \<open>Sample runs\<close>

text \<open>
  A world for the examples: the three environment variables, the value that
  \<^verbatim>\<open>json.loads\<close> gives for the configured text (\<open>None\<close> when the text is not JSON),
  a clock at 2024-02-28 17:05 UTC and a network.
\<close>

definition decode_error_text :: str where
  "decode_error_text = ascii ''Expecting value: line 1 column 1 (char 0)''"

definition sample_world ::
    "str option \<Rightarrow> json option \<Rightarrow> str option \<Rightarrow> str option \<Rightarrow> (event list \<Rightarrow> reply) \<Rightarrow> world" where
  "sample_world cfg parsed tg_token tg_chat net =
     \<lparr> getenv = (\<lambda>k. if k = ascii ''KOYEB_ACCOUNTS'' then cfg
                      else if k = ascii ''TG_BOT_TOKEN'' then tg_token
                      else if k = ascii ''TG_CHAT_ID'' then tg_chat
                      else None),
       json_loads = (\<lambda>s. case parsed of
                             None \<Rightarrow> Inl (JSONDecodeError decode_error_text)
                           | Some v \<Rightarrow>
                               if Some s = cfg then Inr v
                               else Inl (JSONDecodeError decode_error_text)),
       utcnow = \<lparr> year = 2024, month = 2, day = 28, hour = 17, minute = 5 \<rparr>,
       http = net,
       py_format = (\<lambda>v. ascii ''?'') \<rparr>"

text \<open>A network where the Koyeb API answers with one status and Telegram accepts.\<close>

definition status_net :: "nat \<Rightarrow> str \<Rightarrow> event list \<Rightarrow> reply" where
  "status_net status reason tr =
     (case rev tr of
        HttpGet url headers timeout # _ \<Rightarrow> Response status reason url
      | HttpPost url data timeout # _ \<Rightarrow> Response 200 (ascii ''OK'') url
      | _ \<Rightarrow> RequestFault [])"

definition account :: "str \<Rightarrow> str \<Rightarrow> json" where
  "account name token = JObj [(ascii ''name'', JStr name), (ascii ''token'', JStr token)]"

text \<open>
  A network where the Koyeb API accepts the token \<^verbatim>\<open>valid\<close> and rejects every other
  with 401, and Telegram accepts.
\<close>

definition token_net :: "event list \<Rightarrow> reply" where
  "token_net tr =
     (case rev tr of
        HttpGet url headers timeout # _ \<Rightarrow>
          if headers = koyeb_headers (ascii ''valid'') then Response 200 (ascii ''OK'') url
          else Response 401 (ascii ''Unauthorized'') url
      | HttpPost url data timeout # _ \<Rightarrow> Response 200 (ascii ''OK'') url
      | _ \<Rightarrow> RequestFault [])"

text \<open>
  A run with three accounts: \<^verbatim>\<open>a\<close> without a token, \<^verbatim>\<open>b\<close> with the accepted token and
  \<^verbatim>\<open>c\<close> with a rejected one; the Telegram credentials are set.
\<close>

definition sample_run :: world where
  "sample_run =
     sample_world (Some (ascii ''cfg''))
       (Some (JArr [account (ascii ''a'') [], account (ascii ''b'') (ascii ''valid''),
                    account (ascii ''c'') (ascii ''bad'')]))
       (Some (ascii ''BOT'')) (Some (ascii ''42'')) token_net"

text \<open>A run without \<^verbatim>\<open>KOYEB_ACCOUNTS\<close>; the Telegram credentials are set.\<close>

definition unconfigured_run :: world where
  "unconfigured_run =
     sample_world None None (Some (ascii ''BOT'')) (Some (ascii ''42'')) token_net"

text \<open>The accounts of the sample run, without the Telegram bot token.\<close>

definition silent_run :: world where
  "silent_run =
     sample_world (Some (ascii ''cfg''))
       (Some (JArr [account (ascii ''a'') [], account (ascii ''b'') (ascii ''valid''),
                    account (ascii ''c'') (ascii ''bad'')]))
       None (Some (ascii ''42'')) token_net"

text \<open>A run whose configuration parses to the value \<open>v\<close>.\<close>

definition parsed_run :: "json \<Rightarrow> world" where
  "parsed_run v =
     sample_world (Some (ascii ''cfg'')) (Some v) (Some (ascii ''BOT'')) (Some (ascii ''42''))
       token_net"





section \<open>Classification of a check\<close>

lemma raise_for_status_None:
  "raise_for_status status reason url = None \<longleftrightarrow> \<not> (400 \<le> status \<and> status < 600)"
  by (auto simp: raise_for_status_def)




section \<open>Digits and lines\<close>

lemma dec_digits: "list_all is_digit (dec n)"
proof (induction n rule: dec.induct)
  case (1 n)
  show ?case
  proof (cases "n < 10")
    case True
    then show ?thesis
      by (subst dec.simps) (simp add: is_digit_def)
  next
    case False
    have "n mod 10 < 10" by simp
    then have "is_digit (48 + n mod 10)"
      unfolding is_digit_def by linarith
    with False 1 show ?thesis
      by (subst dec.simps) simp
  qed
qed

lemma dec_length_1: "n < 10 \<Longrightarrow> length (dec n) = 1"
  by (subst dec.simps) simp

lemma dec_length_2: "n < 100 \<Longrightarrow> length (dec n) \<le> 2"
  by (subst dec.simps) (simp add: dec_length_1)

lemma dec_length_3: "n < 1000 \<Longrightarrow> length (dec n) \<le> 3"
proof -
  assume "n < 1000"
  then have "n div 10 < 100" by simp
  from dec_length_2 [OF this] show ?thesis
    by (subst dec.simps) (simp add: dec_length_1)
qed

lemma dec_length_4: "n < 10000 \<Longrightarrow> length (dec n) \<le> 4"
proof -
  assume "n < 10000"
  then have "n div 10 < 1000" by simp
  from dec_length_3 [OF this] show ?thesis
    by (subst dec.simps) (simp add: dec_length_1)
qed

lemma zfill_dec:
  "length (dec n) \<le> k \<Longrightarrow> length (zfill k (dec n)) = k \<and> list_all is_digit (zfill k (dec n))"
  using dec_digits [of n] by (auto simp: zfill_def is_digit_def list_all_iff)

lemma split_lines_nonempty: "split_lines s \<noteq> []"
  by (induction s) (auto split: list.splits)

lemma split_lines_append:
  "0xA \<notin> set xs \<Longrightarrow>
   split_lines (xs @ ys) = (xs @ hd (split_lines ys)) # tl (split_lines ys)"
  using split_lines_nonempty [of ys]
  by (induction xs) (auto split: list.splits)

lemma split_lines_plain: "0xA \<notin> set xs \<Longrightarrow> split_lines xs = [xs]"
  using split_lines_append [of xs "[]"] by simp

lemma dec_length_4_exact: "1000 \<le> n \<Longrightarrow> n < 10000 \<Longrightarrow> length (dec n) = 4"
proof -
  assume a: "1000 \<le> n" "n < 10000"
  then have 1: "\<not> n < 10" "\<not> n div 10 < 10" "\<not> n div 10 div 10 < 10" "n div 10 div 10 div 10 < 10"
    by simp_all
  show ?thesis
    by (subst dec.simps, simp add: 1, subst dec.simps, simp add: 1, subst dec.simps,
        simp add: 1 dec_length_1)
qed

lemma ymd_hm_shapeI:
  assumes "length y = 4" "length m = 2" "length d = 2" "length h = 2" "length mi = 2"
    and "list_all is_digit y" "list_all is_digit m" "list_all is_digit d"
      "list_all is_digit h" "list_all is_digit mi"
  shows "ymd_hm_shape (y @ [45] @ m @ [45] @ d @ [32] @ h @ [58] @ mi)"
  using assms by (simp add: ymd_hm_shape_def nth_append)

lemma split_lines_newline: "split_lines (xs @ 0xA # ys) = split_lines xs @ split_lines ys"
  using split_lines_nonempty
  by (induction xs) (auto split: list.splits)

lemma split_lines_join_Cons:
  "split_lines (join [0xA] (m # ms)) = concat (map split_lines (m # ms))"
proof (induction ms arbitrary: m)
  case Nil
  show ?case by simp
next
  case (Cons y ys)
  from Cons [of y] show ?case
    by (simp add: split_lines_newline)
qed

lemma split_lines_join:
  "ms \<noteq> [] \<Longrightarrow> split_lines (join [0xA] ms) = concat (map split_lines ms)"
  by (cases ms) (simp_all only: split_lines_join_Cons list.distinct)

lemma skip_entry_text:
  "skip_entry n = ([0x26A0, 0xFE0F] @ ascii '' '' @ [0x8D26, 0x6237] @ ascii '': '' @ n) @ 0xA # ascii ''Token '' @ [0x672A, 0x914D, 0x7F6E, 0xFF0C, 0x8DF3, 0x8FC7]"
  by (simp add: skip_entry_def ascii_def)

lemma skip_entry_lines:
  "0xA \<notin> set n \<Longrightarrow>
   split_lines (skip_entry n) =
     [[0x26A0, 0xFE0F] @ ascii '' '' @ [0x8D26, 0x6237] @ ascii '': '' @ n, ascii ''Token '' @ [0x672A, 0x914D, 0x7F6E, 0xFF0C, 0x8DF3, 0x8FC7]]"
  unfolding skip_entry_text split_lines_newline
  by (subst split_lines_plain, simp add: ascii_def, subst split_lines_plain) (simp_all add: ascii_def)

lemma success_entry_text: "success_entry n = [0x2705] @ ascii '' '' @ [0x8D26, 0x6237] @ ascii '': '' @ n @ ascii '' Token '' @ [0x6821, 0x9A8C, 0x6210, 0x529F]"
  by (simp add: success_entry_def)

lemma failure_entry_text:
  "failure_entry n m = ([0x274C] @ ascii '' '' @ [0x8D26, 0x6237] @ ascii '': '' @ n @ ascii '' Token '' @ [0x6821, 0x9A8C, 0x5931, 0x8D25] @ ascii '' | '' @ [0x539F, 0x56E0] @ ascii '': '') @ m"
  by (simp add: failure_entry_def)


section \<open>Traces of the parts\<close>

lemma skip_log_not_tg_skip: "skip_log name \<noteq> tg_skip_text"
  by (simp add: skip_log_def tg_skip_text_def ascii_def)

lemma send_tg_message_absent:
  "env_value (getenv w (ascii ''TG_BOT_TOKEN'')) = [] \<or> env_value (getenv w (ascii ''TG_CHAT_ID'')) = []
   \<Longrightarrow> send_tg_message w tr message = (tr @ [Log WARNING tg_skip_text], None)"
  by (auto simp: send_tg_message_def Let_def)

lemma send_tg_message_present:
  assumes "env_value (getenv w (ascii ''TG_BOT_TOKEN'')) = b" "b \<noteq> []"
    and "env_value (getenv w (ascii ''TG_CHAT_ID'')) = c" "c \<noteq> []"
  shows "\<exists>logs. fst (send_tg_message w tr message) = tr @ tg_request b c message # logs
                \<and> list_all (\<lambda>e. \<exists>m. e = Log INFO m \<or> e = Log ERROR m) logs"
  using assms
  by (auto simp: send_tg_message_def Let_def split: reply.splits option.splits)



lemma send_tg_message_posts:
  "env_value (getenv w (ascii ''TG_BOT_TOKEN'')) \<noteq> [] \<Longrightarrow>
   env_value (getenv w (ascii ''TG_CHAT_ID'')) \<noteq> [] \<Longrightarrow>
   filter is_post (fst (send_tg_message w tr message))
     = filter is_post tr @
       [tg_request (env_value (getenv w (ascii ''TG_BOT_TOKEN'')))
                   (env_value (getenv w (ascii ''TG_CHAT_ID''))) message]"
  by (auto simp: send_tg_message_def Let_def tg_request_def split: reply.splits option.splits)

lemma send_tg_message_returns:
  "(\<And>tr' m. http w tr' \<noteq> OtherFault m) \<Longrightarrow> snd (send_tg_message w tr message) = None"
  by (auto simp: send_tg_message_def Let_def split: reply.splits option.splits)

lemma check_koyeb_with_token_trace:
  "token \<noteq> [] \<Longrightarrow> fst (check_koyeb_with_token w tr name token) = tr @ [koyeb_request token]"
  by (auto simp: check_koyeb_with_token_def Let_def split: reply.splits option.splits)

lemma process_account_not_dict:
  "(\<And>kvs. a \<noteq> JObj kvs) \<Longrightarrow> process_account w tr a = (tr, Inl (no_attribute a ''get''))"
  by (cases a) (auto simp: process_account_def)

lemma process_account_bad_token:
  "account_token kvs = Inl e \<Longrightarrow> process_account w tr (JObj kvs) = (tr, Inl e)"
  by (simp add: process_account_def)

lemma process_account_skip:
  "account_token kvs = Inr [] \<Longrightarrow>
   process_account w tr (JObj kvs) =
     (tr @ [Log WARNING (skip_log (fmt w (account_name kvs)))],
      Inr (skip_entry (fmt w (account_name kvs))))"
  by (simp add: process_account_def Let_def)

lemma process_account_check:
  assumes "account_token kvs = Inr token" and "token \<noteq> []"
  shows "process_account w tr (JObj kvs) =
     (case snd (check_koyeb_with_token w
                  (tr @ [Log INFO (checking_log (fmt w (account_name kvs)))])
                  (account_name kvs) token) of
        Inl e \<Rightarrow>
          (tr @ [Log INFO (checking_log (fmt w (account_name kvs))), koyeb_request token], Inl e)
      | Inr (success, message) \<Rightarrow>
          (tr @ [Log INFO (checking_log (fmt w (account_name kvs))), koyeb_request token, Sleep 5],
           Inr (if success then success_entry (fmt w (account_name kvs))
                else failure_entry (fmt w (account_name kvs)) message)))"
proof -
  let ?tr1 = "tr @ [Log INFO (checking_log (fmt w (account_name kvs)))]"
  obtain tr2 r where c: "check_koyeb_with_token w ?tr1 (account_name kvs) token = (tr2, r)"
    by (cases "check_koyeb_with_token w ?tr1 (account_name kvs) token")
  with check_koyeb_with_token_trace [OF assms(2), of w ?tr1 "account_name kvs"]
  have "tr2 = ?tr1 @ [koyeb_request token]"
    by simp
  with c assms show ?thesis
    by (cases r) (auto simp: process_account_def Let_def)
qed

lemma process_account_cases:
  "(\<exists>e. process_account w tr a = (tr, Inl e))
   \<or> (\<exists>n. process_account w tr a = (tr @ [Log WARNING (skip_log n)], Inr (skip_entry n)))
   \<or> (\<exists>n token e. process_account w tr a
          = (tr @ [Log INFO (checking_log n), koyeb_request token], Inl e))
   \<or> (\<exists>n token entry. process_account w tr a
          = (tr @ [Log INFO (checking_log n), koyeb_request token, Sleep 5], Inr entry))"
proof (cases a)
  case (JObj kvs)
  show ?thesis
  proof (cases "account_token kvs")
    case (Inl e)
    with JObj show ?thesis
      by (simp add: process_account_bad_token)
  next
    case (Inr token)
    show ?thesis
    proof (cases "token = []")
      case True
      with Inr JObj show ?thesis
        by (auto simp: process_account_skip)
    next
      case False
      from process_account_check [OF Inr False, of w tr] JObj show ?thesis
        by (auto split: sum.splits prod.splits)
    qed
  qed
qed (simp_all add: process_account_not_dict)

lemma process_account_notifications:
  "filter is_notification (fst (process_account w tr a)) = filter is_notification tr"
  using process_account_cases [of w tr a]
  by (auto simp: is_notification_def skip_log_not_tg_skip koyeb_request_def)

lemma process_account_entry:
  "process_account w tr a = (tr', Inr entry) \<Longrightarrow> is_entry_of w a entry"
proof (cases a)
  case (JObj kvs)
  assume p: "process_account w tr a = (tr', Inr entry)"
  show ?thesis
  proof (cases "account_token kvs")
    case (Inl e)
    with JObj p show ?thesis
      by (simp add: process_account_bad_token)
  next
    case (Inr token)
    show ?thesis
    proof (cases "token = []")
      case True
      with Inr JObj p have "entry = skip_entry (fmt w (account_name kvs))"
        by (simp add: process_account_skip)
      with True Inr JObj show ?thesis
        by (simp add: is_entry_of_def skip_entry_lines) (simp add: skip_entry_text)
    next
      case False
      from process_account_check [OF Inr False, of w tr] JObj p
      have "entry = success_entry (fmt w (account_name kvs))
            \<or> (\<exists>m. entry = failure_entry (fmt w (account_name kvs)) m)"
        by (auto split: sum.splits prod.splits if_splits)
      with JObj Inr False show ?thesis
        by (auto simp: is_entry_of_def success_entry_text failure_entry_text split_lines_plain)
    qed
  qed
qed (simp_all add: process_account_not_dict)

section \<open>The loop\<close>

lemma run_accounts_append:
  "run_accounts w tr ms (xs @ ys) =
     (case run_accounts w tr ms xs of
        (tr', Inl e) \<Rightarrow> (tr', Inl e)
      | (tr', Inr ms') \<Rightarrow> run_accounts w tr' ms' ys)"
  by (induction xs arbitrary: tr ms) (auto split: prod.splits sum.splits)

lemma run_accounts_notifications:
  "filter is_notification (fst (run_accounts w tr ms xs)) = filter is_notification tr"
proof (induction xs arbitrary: tr ms)
  case Nil
  show ?case by simp
next
  case (Cons a xs)
  obtain tr' r where p: "process_account w tr a = (tr', r)"
    by (cases "process_account w tr a")
  with process_account_notifications [of w tr a]
  have "filter is_notification tr' = filter is_notification tr"
    by simp
  with p Cons.IH [of tr'] show ?case
    by (cases r) simp_all
qed

lemma run_accounts_entries:
  "run_accounts w tr ms xs = (tr', Inr ms') \<Longrightarrow>
   \<exists>new. ms' = ms @ new \<and> list_all2 (is_entry_of w) xs new"
proof (induction xs arbitrary: tr ms)
  case Nil
  then show ?case by simp
next
  case (Cons a xs)
  obtain tr1 r where p: "process_account w tr a = (tr1, r)"
    by (cases "process_account w tr a")
  show ?case
  proof (cases r)
    case (Inl e)
    with p Cons.prems show ?thesis by simp
  next
    case (Inr entry)
    with p Cons.prems have "run_accounts w tr1 (ms @ [entry]) xs = (tr', Inr ms')"
      by simp
    from Cons.IH [OF this] obtain new
      where "ms' = (ms @ [entry]) @ new" and "list_all2 (is_entry_of w) xs new"
      by blast
    moreover from p Inr have "is_entry_of w a entry"
      by (simp add: process_account_entry)
    ultimately have "ms' = ms @ (entry # new) \<and> list_all2 (is_entry_of w) (a # xs) (entry # new)"
      by simp
    then show ?thesis by blast
  qed
qed

section \<open>Pauses\<close>

lemma pauses_from_append:
  "pauses_from acc (xs @ ys) = pauses_from acc xs @ pauses_from (pause_state acc xs) ys"
  by (induction acc xs rule: pauses_from.induct) simp_all

lemma pause_state_append:
  "pause_state acc (xs @ ys) = pause_state (pause_state acc xs) ys"
  by (induction acc xs rule: pause_state.induct) simp_all

lemma pauses_from_no_get:
  "filter is_get ys = [] \<Longrightarrow> pauses_from acc ys = []"
  by (induction acc ys rule: pauses_from.induct) simp_all

lemma process_account_paced:
  assumes "list_all (\<lambda>d. d = 5) (pauses tr)" and "rested tr"
  shows "list_all (\<lambda>d. d = 5) (pauses (fst (process_account w tr a)))
    \<and> (\<forall>entry. snd (process_account w tr a) = Inr entry
          \<longrightarrow> rested (fst (process_account w tr a)))"
  using process_account_cases [of w tr a] assms
  by (auto simp: pauses_def rested_def pauses_from_append pause_state_append koyeb_request_def)

lemma run_accounts_paced:
  "list_all (\<lambda>d. d = 5) (pauses tr) \<Longrightarrow> rested tr \<Longrightarrow>
   list_all (\<lambda>d. d = 5) (pauses (fst (run_accounts w tr ms xs)))"
proof (induction xs arbitrary: tr ms)
  case Nil
  then show ?case by simp
next
  case (Cons a xs)
  obtain tr1 r where p: "process_account w tr a = (tr1, r)"
    by (cases "process_account w tr a")
  from process_account_paced [OF Cons.prems, of w a] p
  have 1: "list_all (\<lambda>d. d = 5) (pauses tr1)"
    and 2: "\<And>entry. r = Inr entry \<Longrightarrow> rested tr1"
    by simp_all
  show ?case
  proof (cases r)
    case (Inl e)
    with p 1 show ?thesis by simp
  next
    case (Inr entry)
    with p Cons.IH [OF 1 2 [OF Inr]] show ?thesis by simp
  qed
qed

section \<open>The summary and the run\<close>

lemma build_summary_trace:
  "fst (build_summary w) = []
   \<or> (\<exists>accounts. fst (build_summary w) = fst (run_accounts w [] [] accounts))"
  by (auto simp: build_summary_def split: sum.splits prod.splits) (metis fst_conv)+

lemma build_summary_notifications:
  "filter is_notification (fst (build_summary w)) = []"
  using build_summary_trace [of w] run_accounts_notifications [of w "[]" "[]"]
  by auto

lemma build_summary_paced:
  "list_all (\<lambda>d. d = 5) (pauses (fst (build_summary w)))"
proof -
  have "list_all (\<lambda>d. d = 5) (pauses [])" and "rested []"
    by (simp_all add: pauses_def rested_def)
  from run_accounts_paced [OF this] build_summary_trace [of w] show ?thesis
    by (auto simp: pauses_def)
qed

lemma build_summary_ok:
  assumes "build_summary w = (tr, Inr summary)"
  shows "\<exists>accounts t messages.
           validate_env_variables w = Inr (JArr accounts) \<and> accounts \<noteq> [] \<and>
           plus_hours (utcnow w) 8 = Inr t \<and>
           run_accounts w [] [] accounts = (tr, Inr messages) \<and>
           summary = summary_text (strftime t) messages"
proof -
  from assms obtain v t items messages
    where v: "validate_env_variables w = Inr v" "truthy v"
      and t: "plus_hours (utcnow w) 8 = Inr t"
      and i: "py_iter v = Inr items"
      and r: "run_accounts w [] [] items = (tr, Inr messages)"
      and s: "summary = summary_text (strftime t) messages"
    by (auto simp: build_summary_def split: sum.splits prod.splits if_splits)
  have "\<exists>xs. v = JArr xs"
  proof (cases v)
    case (JStr str)
    with v i obtain c cs where "items = JStr [c] # cs"
      by (cases str) auto
    with r show ?thesis
      by (simp add: process_account_not_dict)
  next
    case (JObj kvs)
    with v i obtain k ks where "items = JStr k # ks"
      by (cases kvs) auto
    with r show ?thesis
      by (simp add: process_account_not_dict)
  qed (use i in simp_all)
  with v t i r s show ?thesis
    by auto
qed

lemma send_tg_message_extends:
  "\<exists>ys. fst (send_tg_message w tr message) = tr @ ys \<and> filter is_get ys = []"
  by (auto simp: send_tg_message_def Let_def tg_request_def split: reply.splits option.splits)

lemma handle_error_extends:
  "\<exists>ys. fst (handle_error w tr e) = tr @ ys \<and> filter is_get ys = []"
  using send_tg_message_extends [of w "tr @ [Log ERROR (error_message e)]" "error_message e"]
  by (auto simp: handle_error_def)

lemma main_extends:
  "\<exists>ys. fst (main w) = fst (build_summary w) @ ys \<and> filter is_get ys = []"
proof (cases "build_summary w")
  case (Pair tr r)
  show ?thesis
  proof (cases r)
    case (Inl e)
    with Pair handle_error_extends [of w tr e] show ?thesis
      by (simp add: main_def)
  next
    case (Inr summary)
    obtain tr' x where s: "send_tg_message w (tr @ [Log INFO done_log]) summary = (tr', x)"
      by (cases "send_tg_message w (tr @ [Log INFO done_log]) summary")
    with send_tg_message_extends [of w "tr @ [Log INFO done_log]" summary]
    obtain ys where ys: "tr' = tr @ Log INFO done_log # ys" "filter is_get ys = []"
      by auto
    show ?thesis
    proof (cases x)
      case None
      with Pair Inr s ys show ?thesis
        by (simp add: main_def)
    next
      case (Some e)
      from handle_error_extends [of w tr' e] obtain zs
        where "fst (handle_error w tr' e) = tr' @ zs" "filter is_get zs = []"
        by blast
      with Pair Inr s ys Some show ?thesis
        by (simp add: main_def)
    qed
  qed
qed

section \<open>Evaluating sample runs\<close>

lemma dec_values:
  "dec (Suc 0) = ascii ''1''" "dec 2 = ascii ''2''" "dec 5 = ascii ''5''" "dec 29 = ascii ''29''"
  "dec 401 = ascii ''401''" "dec 2024 = ascii ''2024''"
  by code_simp+

lemmas sample_defs =
  sample_run_def unconfigured_run_def sample_world_def token_net_def status_net_def account_def

lemmas step_defs =
  build_summary_def validate_env_variables_def plus_hours_def next_day_def days_in_month_def
  is_leap_def process_account_def account_name_def account_token_def dict_get_def por_def
  fmt_def strip_def isspace_def check_koyeb_with_token_def koyeb_request_def koyeb_headers_def
  raise_for_status_def strftime_def zfill_def summary_text_def Let_def

lemma sample_run_summary:
  "build_summary sample_run =
     ([Log WARNING (skip_log (ascii ''a'')),
       Log INFO (checking_log (ascii ''b'')), koyeb_request (ascii ''valid''), Sleep 5,
       Log INFO (checking_log (ascii ''c'')), koyeb_request (ascii ''bad''), Sleep 5],
      Inr (summary_header @ ascii ''2024-02-29 01:05'' @ [0xA, 0xA] @
           skip_entry (ascii ''a'') @ [0xA] @
           success_entry (ascii ''b'') @ [0xA] @
           failure_entry (ascii ''c'')
             (ascii ''401 Client Error: Unauthorized for url: https://app.koyeb.com/v1/apps'') @
           summary_footer))"
  by (simp add: sample_defs step_defs dec_values koyeb_url_def ascii_def)

section \<open>The error handler\<close>




section \<open>Notifications of the sample runs\<close>

lemma send_tg_message_accepted:
  assumes "env_value (getenv w (ascii ''TG_BOT_TOKEN'')) = b" "b \<noteq> []"
    and "env_value (getenv w (ascii ''TG_CHAT_ID'')) = c" "c \<noteq> []"
    and "http w (tr @ [tg_request b c message]) = Response 200 reason url"
  shows "send_tg_message w tr message = (tr @ [tg_request b c message, Log INFO tg_ok_text], None)"
  using assms by (simp add: send_tg_message_def Let_def raise_for_status_def)

lemma sample_world_credentials:
  "env_value (getenv (sample_world cfg parsed (Some b) (Some c) net) (ascii ''TG_BOT_TOKEN'')) = b"
  "env_value (getenv (sample_world cfg parsed (Some b) (Some c) net) (ascii ''TG_CHAT_ID'')) = c"
  by (simp_all add: sample_world_def env_value_def ascii_def)

lemma token_net_post:
  "token_net (tr @ [tg_request b c message]) =
     Response 200 (ascii ''OK'')
       (ascii ''https://api.telegram.org/bot'' @ b @ ascii ''/sendMessage'')"
  by (simp add: token_net_def tg_request_def)

lemma sample_world_http: "http (sample_world cfg parsed b c net) = net"
  by (simp add: sample_world_def)

lemma token_net_send:
  "b \<noteq> [] \<Longrightarrow> c \<noteq> [] \<Longrightarrow>
   send_tg_message (sample_world cfg parsed (Some b) (Some c) token_net) tr message =
     (tr @ [tg_request b c message, Log INFO tg_ok_text], None)"
  by (rule send_tg_message_accepted [OF sample_world_credentials(1) _ sample_world_credentials(2)])
     (simp_all add: sample_world_http token_net_post)

lemma sample_run_main:
  "\<exists>summary. snd (build_summary sample_run) = Inr summary \<and>
     main sample_run =
       (fst (build_summary sample_run) @
          [Log INFO done_log, tg_request (ascii ''BOT'') (ascii ''42'') summary,
           Log INFO tg_ok_text], None)"
proof -
  have s: "send_tg_message sample_run tr message =
     (tr @ [tg_request (ascii ''BOT'') (ascii ''42'') message, Log INFO tg_ok_text], None)"
    for tr message
    unfolding sample_run_def by (rule token_net_send) (simp_all add: ascii_def)
  show ?thesis
    by (simp add: main_def sample_run_summary s)
qed

lemma build_summary_posts: "filter is_post (fst (build_summary w)) = []"
proof -
  have "filter is_post (filter is_notification (fst (build_summary w))) = []"
    by (simp add: build_summary_notifications)
  moreover have "filter is_post (filter is_notification tr) = filter is_post tr" for tr
    by (induction tr) (auto simp: is_notification_def)
  ultimately show ?thesis
    by simp
qed

text \<open>
  Claim C6. If the bot token or the chat id is absent (unset or empty), \<open>send_tg_message\<close>
  only logs a warning: it makes no \<^verbatim>\<open>requests.post\<close> and raises nothing. The run then
  contains no POST at all and ends normally, without an exception leaving \<open>main\<close>.
\<close>

theorem absent_credentials_no_post:
  assumes "env_value (getenv w (ascii ''TG_BOT_TOKEN'')) = []
           \<or> env_value (getenv w (ascii ''TG_CHAT_ID'')) = []"
  shows "send_tg_message w tr message = (tr @ [Log WARNING tg_skip_text], None)
    \<and> filter is_post (fst (main w)) = []
    \<and> snd (main w) = None"
proof -
  note s = send_tg_message_absent [OF assms]
  have "filter is_post (fst (main w)) = [] \<and> snd (main w) = None"
  proof (cases "build_summary w")
    case (Pair tr' r)
    with build_summary_posts [of w] have "filter is_post tr' = []"
      by simp
    with Pair show ?thesis
      by (cases r) (simp_all add: main_def handle_error_def s)
  qed
  with s show ?thesis
    by simp
qed

lemma silent_run_summary: "build_summary silent_run = build_summary sample_run"
  unfolding sample_run_summary
  by (simp add: silent_run_def sample_defs step_defs dec_values koyeb_url_def ascii_def)

text \<open>
  The sample accounts without the bot token: the checks run, the warning is logged, nothing
  is posted.
\<close>

theorem absent_credentials_no_post_witness:
  "send_tg_message silent_run [] (ascii ''hello'') = ([] @ [Log WARNING tg_skip_text], None)
   \<and> filter is_post (fst (main silent_run)) = []
   \<and> snd (main silent_run) = None
   \<and> main silent_run =
       (fst (build_summary sample_run) @ [Log INFO done_log, Log WARNING tg_skip_text], None)"
proof -
  have h: "env_value (getenv silent_run (ascii ''TG_BOT_TOKEN'')) = []
           \<or> env_value (getenv silent_run (ascii ''TG_CHAT_ID'')) = []"
    by (simp add: silent_run_def sample_defs env_value_def ascii_def)
  have "main silent_run =
       (fst (build_summary sample_run) @ [Log INFO done_log, Log WARNING tg_skip_text], None)"
    by (simp add: main_def silent_run_summary sample_run_summary send_tg_message_absent [OF h])
  with absent_credentials_no_post [OF h, of "[]" "ascii ''hello''"] show ?thesis
    by simp
qed

section \<open>Stripping the token\<close>






text \<open>
  Claim C8. Between every two successive account checks of a run the script sleeps five
  seconds in total: every \<^verbatim>\<open>requests.get\<close> after the first comes after sleeps that sum to
  5 since the previous one. The pause does not depend on the outcome of the check: an
  account check that returns, with success or with failure, is followed at once by
  \<^verbatim>\<open>time.sleep(5)\<close>, before the next account is looked at, skipped or not.
\<close>

theorem fixed_pause_between_checks:
  "list_all (\<lambda>d. d = 5) (pauses (fst (main w)))
   \<and> (account_token kvs = Inr token \<and> token \<noteq> []
        \<and> snd (process_account w tr (JObj kvs)) = Inr entry \<longrightarrow>
      fst (process_account w tr (JObj kvs)) =
        tr @ [Log INFO (checking_log (fmt w (account_name kvs))), koyeb_request token, Sleep 5])"
proof -
  from main_extends [of w] obtain ys
    where "fst (main w) = fst (build_summary w) @ ys" and "filter is_get ys = []"
    by blast
  then have "pauses (fst (main w)) = pauses (fst (build_summary w))"
    by (simp add: pauses_def pauses_from_append pauses_from_no_get)
  with build_summary_paced [of w] have 1: "list_all (\<lambda>d. d = 5) (pauses (fst (main w)))"
    by simp
  have "fst (process_account w tr (JObj kvs)) =
        tr @ [Log INFO (checking_log (fmt w (account_name kvs))), koyeb_request token, Sleep 5]"
    if "account_token kvs = Inr token" and "token \<noteq> []"
      and "snd (process_account w tr (JObj kvs)) = Inr entry"
    using process_account_check [OF that(1,2), of w tr] that(3)
    by (auto split: sum.splits prod.splits)
  with 1 show ?thesis
    by blast
qed

text \<open>
  The sample run makes two checks, with one pause of five seconds between them; the failed
  check of the last account is followed by its pause as well.
\<close>

theorem fixed_pause_between_checks_witness:
  "list_all (\<lambda>d. d = 5) (pauses (fst (main sample_run)))
   \<and> pauses (fst (main sample_run)) = [5]
   \<and> snd (process_account sample_run [] (account (ascii ''c'') (ascii ''bad''))) =
       Inr (failure_entry (ascii ''c'')
              (ascii ''401 Client Error: Unauthorized for url: https://app.koyeb.com/v1/apps''))
   \<and> fst (process_account sample_run [] (account (ascii ''c'') (ascii ''bad''))) =
       [Log INFO (checking_log (ascii ''c'')), koyeb_request (ascii ''bad''), Sleep 5]"
proof -
  have p: "pauses (fst (main sample_run)) = [5]"
    using sample_run_main
    by (auto simp: sample_run_summary pauses_def koyeb_request_def tg_request_def)
  have c: "process_account sample_run [] (account (ascii ''c'') (ascii ''bad'')) =
       ([Log INFO (checking_log (ascii ''c'')), koyeb_request (ascii ''bad''), Sleep 5],
        Inr (failure_entry (ascii ''c'')
              (ascii ''401 Client Error: Unauthorized for url: https://app.koyeb.com/v1/apps'')))"
    by (simp add: sample_defs step_defs dec_values koyeb_url_def ascii_def)
  have t: "account_token [(ascii ''name'', JStr (ascii ''c'')), (ascii ''token'', JStr (ascii ''bad''))]
             = Inr (ascii ''bad'')"
    by (simp add: account_token_def dict_get_def strip_def isspace_def ascii_def)
  have e: "ascii ''bad'' \<noteq> []"
    by (simp add: ascii_def)
  from fixed_pause_between_checks [of sample_run
         "[(ascii ''name'', JStr (ascii ''c'')), (ascii ''token'', JStr (ascii ''bad''))]"
         "ascii ''bad''" "[]"] p c t e
  show ?thesis
    by (simp add: account_def)
qed

section \<open>Faults of the notification call\<close>

lemma send_tg_message_no_fault:
  assumes "\<And>tr url data timeout m. http w (tr @ [HttpPost url data timeout]) \<noteq> OtherFault m"
  shows "snd (send_tg_message w tr message) = None"
proof (cases "http w (tr @ [tg_request (env_value (getenv w (ascii ''TG_BOT_TOKEN'')))
                             (env_value (getenv w (ascii ''TG_CHAT_ID''))) message])")
  case (OtherFault m)
  with assms show ?thesis
    by (simp add: tg_request_def)
qed (simp_all add: send_tg_message_def Let_def split: option.splits)

section \<open>The clock and the lines of the summary\<close>

lemma days_in_month_pos: "1 \<le> days_in_month y m"
  by (simp add: days_in_month_def)

lemma next_day_valid:
  "valid_datetime t \<Longrightarrow> next_day t = Inr t' \<Longrightarrow> valid_datetime t'"
  using days_in_month_pos [of "year t" "Suc (month t)"] days_in_month_pos [of "Suc (year t)" 1]
  by (auto simp: valid_datetime_def next_day_def split: if_splits)

lemma plus_hours_valid:
  "valid_datetime t \<Longrightarrow> plus_hours t 8 = Inr t' \<Longrightarrow> valid_datetime t'"
proof -
  assume v: "valid_datetime t" and p: "plus_hours t 8 = Inr t'"
  show ?thesis
  proof (cases "hour t + 8 < 24")
    case True
    with v p show ?thesis
      by (auto simp: plus_hours_def valid_datetime_def)
  next
    case False
    with p obtain n where n: "next_day t = Inr n" and t': "t' = n\<lparr>hour := hour t + 8 - 24\<rparr>"
      by (auto simp: plus_hours_def split: sum.splits)
    from next_day_valid [OF v n] v t' show ?thesis
      by (auto simp: valid_datetime_def)
  qed
qed

lemma strftime_shape:
  "valid_datetime t \<Longrightarrow> 1000 \<le> year t \<Longrightarrow> ymd_hm_shape (strftime t)"
proof -
  assume v: "valid_datetime t" and y: "1000 \<le> year t"
  have "days_in_month (year t) (month t) \<le> 31"
    by (simp add: days_in_month_def)
  with v have "year t < 10000" "month t < 100" "day t < 100" "hour t < 100" "minute t < 100"
    by (simp_all add: valid_datetime_def)
  with y have "length (dec (year t)) = 4" "length (dec (month t)) \<le> 2"
    "length (dec (day t)) \<le> 2" "length (dec (hour t)) \<le> 2" "length (dec (minute t)) \<le> 2"
    by (simp_all add: dec_length_4_exact dec_length_2)
  then have "ymd_hm_shape
     (dec (year t) @ [45] @ zfill 2 (dec (month t)) @ [45] @
      zfill 2 (dec (day t)) @ [32] @ zfill 2 (dec (hour t)) @ [58] @ zfill 2 (dec (minute t)))"
    by (intro ymd_hm_shapeI) (simp_all add: zfill_dec dec_digits)
  then show ?thesis
    by (simp add: strftime_def ascii_def)
qed

lemma strftime_one_line: "0xA \<notin> set (strftime t)"
proof -
  have "0xA \<notin> set (dec n)" for n
    using dec_digits [of n] by (auto simp: is_digit_def list_all_iff)
  then have "0xA \<notin> set (zfill k (dec n))" for k n
    by (auto simp: zfill_def)
  with \<open>\<And>n. 0xA \<notin> set (dec n)\<close> show ?thesis
    by (simp add: strftime_def ascii_def)
qed

lemma plus_hours_year:
  "plus_hours t 8 = Inr t' \<Longrightarrow> year t \<le> year t'"
  by (auto simp: plus_hours_def next_day_def split: if_splits sum.splits)

section \<open>The notification of a run\<close>

lemma tg_request_text:
  "tg_request b c message =
     HttpPost (ascii ''https://api.telegram.org/bot'' @ b @ ascii ''/sendMessage'')
       [(ascii ''chat_id'', c),
        (ascii ''text'', message),
        (ascii ''parse_mode'', ascii ''Markdown'')]
       30"
  by (simp add: tg_request_def)



lemma main_posts_summary:
  assumes "build_summary w = (tr, Inr summary)"
    and "env_value (getenv w (ascii ''TG_BOT_TOKEN'')) = b" "b \<noteq> []"
    and "env_value (getenv w (ascii ''TG_CHAT_ID'')) = c" "c \<noteq> []"
  shows "\<exists>rest. filter is_post (fst (main w)) = tg_request b c summary # rest"
    and "(\<And>tr url data timeout m. http w (tr @ [HttpPost url data timeout]) \<noteq> OtherFault m)
         \<Longrightarrow> filter is_post (fst (main w)) = [tg_request b c summary] \<and> snd (main w) = None"
proof -
  from assms(1) build_summary_posts [of w] have n: "filter is_post tr = []"
    by simp
  obtain tr' x where s: "send_tg_message w (tr @ [Log INFO done_log]) summary = (tr', x)"
    by (cases "send_tg_message w (tr @ [Log INFO done_log]) summary")
  with send_tg_message_posts [of w "tr @ [Log INFO done_log]" summary] assms n
  have p: "filter is_post tr' = [tg_request b c summary]"
    by simp
  show "\<exists>rest. filter is_post (fst (main w)) = tg_request b c summary # rest"
  proof (cases x)
    case None
    with assms(1) s p show ?thesis
      by (simp add: main_def)
  next
    case (Some e)
    from send_tg_message_posts [of w "tr' @ [Log ERROR (error_message e)]" "error_message e"]
      assms p
    have "filter is_post (fst (handle_error w tr' e))
            = [tg_request b c summary, tg_request b c (error_message e)]"
      by (simp add: handle_error_def)
    with assms(1) s Some show ?thesis
      by (simp add: main_def)
  qed
  show "filter is_post (fst (main w)) = [tg_request b c summary] \<and> snd (main w) = None"
    if "\<And>tr url data timeout m. http w (tr @ [HttpPost url data timeout]) \<noteq> OtherFault m"
  proof -
    from send_tg_message_no_fault [OF that, of "tr @ [Log INFO done_log]" summary] s
    have "x = None"
      by simp
    with assms(1) s p show ?thesis
      by (simp add: main_def)
  qed
qed



section \<open>Skipped accounts\<close>

text \<open>
  Claim C4. An account whose token is the empty string (or is absent, which \<^verbatim>\<open>get\<close>
  turns into the empty string) is skipped: processing it adds one warning to the log and
  no request, its entry in \<^verbatim>\<open>messages\<close> names the account and reads "Token not
  configured, skipped" on a second line, and the loop goes on with the remaining accounts.
\<close>

theorem empty_token_skipped:
  assumes "run_accounts w tr0 ms0 before = (tr, Inr ms)"
    and "dict_get kvs (ascii ''token'') (JStr []) = JStr []"
  shows "process_account w tr (JObj kvs) =
           (tr @ [Log WARNING ([0x26A0, 0xFE0F] @ ascii '' '' @ [0x8D26, 0x6237] @ ascii '' '' @ fmt w (account_name kvs) @
                               ascii '' '' @ [0x6CA1, 0x6709, 0x914D, 0x7F6E] @ ascii '' token'' @ [0xFF0C, 0x8DF3, 0x8FC7])],
            Inr ([0x26A0, 0xFE0F] @ ascii '' '' @ [0x8D26, 0x6237] @ ascii '': '' @ fmt w (account_name kvs) @ [0xA] @
                 ascii ''Token '' @ [0x672A, 0x914D, 0x7F6E, 0xFF0C, 0x8DF3, 0x8FC7]))
    \<and> filter is_get (fst (process_account w tr (JObj kvs))) = filter is_get tr
    \<and> run_accounts w tr0 ms0 (before @ JObj kvs # rest) =
        run_accounts w
          (tr @ [Log WARNING ([0x26A0, 0xFE0F] @ ascii '' '' @ [0x8D26, 0x6237] @ ascii '' '' @ fmt w (account_name kvs) @
                              ascii '' '' @ [0x6CA1, 0x6709, 0x914D, 0x7F6E] @ ascii '' token'' @ [0xFF0C, 0x8DF3, 0x8FC7])])
          (ms @ [[0x26A0, 0xFE0F] @ ascii '' '' @ [0x8D26, 0x6237] @ ascii '': '' @ fmt w (account_name kvs) @ [0xA] @
                 ascii ''Token '' @ [0x672A, 0x914D, 0x7F6E, 0xFF0C, 0x8DF3, 0x8FC7]])
          rest"
proof -
  from assms(2) have "account_token kvs = Inr []"
    by (simp add: account_token_def strip_def)
  then have "process_account w tr (JObj kvs) =
           (tr @ [Log WARNING (skip_log (fmt w (account_name kvs)))],
            Inr (skip_entry (fmt w (account_name kvs))))"
    by (rule process_account_skip)
  with assms(1) show ?thesis
    by (simp add: run_accounts_append skip_log_def skip_entry_def)
qed

text \<open>
  In the sample run the first account has no token: it is skipped and the loop goes on to
  check the other two.
\<close>

theorem empty_token_skipped_witness:
  "process_account sample_run [] (account (ascii ''a'') []) =
     ([Log WARNING ([0x26A0, 0xFE0F] @ ascii '' '' @ [0x8D26, 0x6237] @ ascii '' a '' @ [0x6CA1, 0x6709, 0x914D, 0x7F6E] @ ascii '' token'' @ [0xFF0C, 0x8DF3, 0x8FC7])],
      Inr ([0x26A0, 0xFE0F] @ ascii '' '' @ [0x8D26, 0x6237] @ ascii '': a'' @ [0xA] @ ascii ''Token '' @ [0x672A, 0x914D, 0x7F6E, 0xFF0C, 0x8DF3, 0x8FC7]))
   \<and> filter is_get (fst (process_account sample_run [] (account (ascii ''a'') []))) = []
   \<and> run_accounts sample_run [] []
        ([] @ account (ascii ''a'') [] #
           [account (ascii ''b'') (ascii ''valid''), account (ascii ''c'') (ascii ''bad'')]) =
      run_accounts sample_run
        [Log WARNING ([0x26A0, 0xFE0F] @ ascii '' '' @ [0x8D26, 0x6237] @ ascii '' a '' @ [0x6CA1, 0x6709, 0x914D, 0x7F6E] @ ascii '' token'' @ [0xFF0C, 0x8DF3, 0x8FC7])]
        [[0x26A0, 0xFE0F] @ ascii '' '' @ [0x8D26, 0x6237] @ ascii '': a'' @ [0xA] @ ascii ''Token '' @ [0x672A, 0x914D, 0x7F6E, 0xFF0C, 0x8DF3, 0x8FC7]]
        [account (ascii ''b'') (ascii ''valid''), account (ascii ''c'') (ascii ''bad'')]
   \<and> snd (run_accounts sample_run [] []
            [account (ascii ''a'') [], account (ascii ''b'') (ascii ''valid''),
             account (ascii ''c'') (ascii ''bad'')]) =
       Inr [[0x26A0, 0xFE0F] @ ascii '' '' @ [0x8D26, 0x6237] @ ascii '': a'' @ [0xA] @ ascii ''Token '' @ [0x672A, 0x914D, 0x7F6E, 0xFF0C, 0x8DF3, 0x8FC7],
            [0x2705] @ ascii '' '' @ [0x8D26, 0x6237] @ ascii '': b Token '' @ [0x6821, 0x9A8C, 0x6210, 0x529F],
            [0x274C] @ ascii '' '' @ [0x8D26, 0x6237] @ ascii '': c Token '' @ [0x6821, 0x9A8C, 0x5931, 0x8D25] @ ascii '' | '' @ [0x539F, 0x56E0] @ ascii '': 401 Client Error: Unauthorized for url: https://app.koyeb.com/v1/apps'']"
proof -
  have 0: "snd (run_accounts sample_run [] []
            [account (ascii ''a'') [], account (ascii ''b'') (ascii ''valid''),
             account (ascii ''c'') (ascii ''bad'')]) =
       Inr [[0x26A0, 0xFE0F] @ ascii '' '' @ [0x8D26, 0x6237] @ ascii '': a'' @ [0xA] @ ascii ''Token '' @ [0x672A, 0x914D, 0x7F6E, 0xFF0C, 0x8DF3, 0x8FC7],
            [0x2705] @ ascii '' '' @ [0x8D26, 0x6237] @ ascii '': b Token '' @ [0x6821, 0x9A8C, 0x6210, 0x529F],
            [0x274C] @ ascii '' '' @ [0x8D26, 0x6237] @ ascii '': c Token '' @ [0x6821, 0x9A8C, 0x5931, 0x8D25] @ ascii '' | '' @ [0x539F, 0x56E0] @ ascii '': 401 Client Error: Unauthorized for url: https://app.koyeb.com/v1/apps'']"
    by (simp add: sample_defs step_defs dec_values koyeb_url_def skip_entry_def
          success_entry_def failure_entry_def ascii_def)
  have 1: "run_accounts sample_run [] [] [] = ([], Inr [])"
    by simp
  have 2: "dict_get [(ascii ''name'', JStr (ascii ''a'')), (ascii ''token'', JStr [])]
             (ascii ''token'') (JStr []) = JStr []"
    by (simp add: dict_get_def ascii_def)
  have 3: "fmt sample_run
             (account_name [(ascii ''name'', JStr (ascii ''a'')), (ascii ''token'', JStr [])])
           = ascii ''a''"
    by (simp add: fmt_def account_name_def dict_get_def por_def ascii_def)
  from empty_token_skipped [OF 1 2,
      of "[account (ascii ''b'') (ascii ''valid''), account (ascii ''c'') (ascii ''bad'')]"]
  have "process_account sample_run [] (account (ascii ''a'') []) =
     ([Log WARNING ([0x26A0, 0xFE0F] @ ascii '' '' @ [0x8D26, 0x6237] @ ascii '' a '' @ [0x6CA1, 0x6709, 0x914D, 0x7F6E] @ ascii '' token'' @ [0xFF0C, 0x8DF3, 0x8FC7])],
      Inr ([0x26A0, 0xFE0F] @ ascii '' '' @ [0x8D26, 0x6237] @ ascii '': a'' @ [0xA] @ ascii ''Token '' @ [0x672A, 0x914D, 0x7F6E, 0xFF0C, 0x8DF3, 0x8FC7]))
   \<and> filter is_get (fst (process_account sample_run [] (account (ascii ''a'') []))) = []
   \<and> run_accounts sample_run [] []
        ([] @ account (ascii ''a'') [] #
           [account (ascii ''b'') (ascii ''valid''), account (ascii ''c'') (ascii ''bad'')]) =
      run_accounts sample_run
        [Log WARNING ([0x26A0, 0xFE0F] @ ascii '' '' @ [0x8D26, 0x6237] @ ascii '' a '' @ [0x6CA1, 0x6709, 0x914D, 0x7F6E] @ ascii '' token'' @ [0xFF0C, 0x8DF3, 0x8FC7])]
        [[0x26A0, 0xFE0F] @ ascii '' '' @ [0x8D26, 0x6237] @ ascii '': a'' @ [0xA] @ ascii ''Token '' @ [0x672A, 0x914D, 0x7F6E, 0xFF0C, 0x8DF3, 0x8FC7]]
        [account (ascii ''b'') (ascii ''valid''), account (ascii ''c'') (ascii ''bad'')]"
    unfolding 3 account_def by (simp add: ascii_def)
  with 0 show ?thesis
    by blast
qed

section \<open>The error path\<close>







section \<open>One notification\<close>

lemma sample_run_text:
  "snd (build_summary sample_run) =
     Inr ([0x23F0] @ ascii '' '' @ [0x5317, 0x4EAC, 0x65F6, 0x95F4] @ ascii '': 2024-02-29 01:05'' @ [0xA, 0xA, 0x26A0, 0xFE0F] @ ascii '' '' @ [0x8D26, 0x6237] @ ascii '': a'' @ [0xA] @ ascii ''Token '' @ [0x672A, 0x914D, 0x7F6E, 0xFF0C, 0x8DF3, 0x8FC7, 0xA, 0x2705] @ ascii '' '' @ [0x8D26, 0x6237] @ ascii '': b Token '' @ [0x6821, 0x9A8C, 0x6210, 0x529F, 0xA, 0x274C] @ ascii '' '' @ [0x8D26, 0x6237] @ ascii '': c Token '' @ [0x6821, 0x9A8C, 0x5931, 0x8D25] @ ascii '' | '' @ [0x539F, 0x56E0] @ ascii '': 401 Client Error: Unauthorized for url: https://app.koyeb.com/v1/apps'' @ [0xA, 0xA, 0x2705] @ ascii '' '' @ [0x4EFB, 0x52A1, 0x6267, 0x884C, 0x5B8C, 0x6210])"
  by (simp add: sample_run_summary summary_header_def summary_footer_def skip_entry_def
        success_entry_def failure_entry_def ascii_def)




section \<open>The summary\<close>

lemma summary_text_text:
  "summary_text time ms =
     [0x23F0] @ ascii '' '' @ [0x5317, 0x4EAC, 0x65F6, 0x95F4] @ ascii '': '' @ time @ [0xA, 0xA] @ join [0xA] ms @
     [0xA, 0xA, 0x2705] @ ascii '' '' @ [0x4EFB, 0x52A1, 0x6267, 0x884C, 0x5B8C, 0x6210]"
  by (simp add: summary_text_def summary_header_def summary_footer_def)

lemma summary_text_lines:
  assumes "ms \<noteq> []" and "0xA \<notin> set time"
  shows "split_lines (summary_text time ms) =
     [[0x23F0] @ ascii '' '' @ [0x5317, 0x4EAC, 0x65F6, 0x95F4] @ ascii '': '' @ time, []] @ concat (map split_lines ms) @
     [[], [0x2705] @ ascii '' '' @ [0x4EFB, 0x52A1, 0x6267, 0x884C, 0x5B8C, 0x6210]]"
proof -
  define h where "h = [0x23F0] @ ascii '' '' @ [0x5317, 0x4EAC, 0x65F6, 0x95F4] @ ascii '': '' @ time"
  define c where "c = [0x2705] @ ascii '' '' @ [0x4EFB, 0x52A1, 0x6267, 0x884C, 0x5B8C, 0x6210]"
  have h: "0xA \<notin> set h" and c: "0xA \<notin> set c"
    using assms(2) by (simp_all add: h_def c_def ascii_def)
  have "summary_text time ms = h @ 0xA # 0xA # (join [0xA] ms @ 0xA # 0xA # c)"
    by (simp add: summary_text_def summary_header_def summary_footer_def h_def c_def ascii_def)
  also have "split_lines \<dots> = split_lines h @ split_lines (0xA # (join [0xA] ms @ 0xA # 0xA # c))"
    by (rule split_lines_newline)
  also have "split_lines (0xA # (join [0xA] ms @ 0xA # 0xA # c))
               = [] # split_lines (join [0xA] ms @ 0xA # 0xA # c)"
    by simp
  also have "split_lines (join [0xA] ms @ 0xA # 0xA # c)
               = split_lines (join [0xA] ms) @ split_lines (0xA # c)"
    by (rule split_lines_newline)
  also have "split_lines (0xA # c) = [] # split_lines c"
    by simp
  finally show ?thesis
    using assms(1) h c by (simp add: split_lines_plain split_lines_join h_def c_def)
qed

text \<open>
  Claim C1, as the code has it. When the run processes the account list to completion, so
  that a summary is built, the configuration was a list of accounts and the summary holds
  exactly one result entry per account, in the order of the accounts: between the header
  with its empty line and the empty line with the completion line, the lines of the
  summary are the lines of the entries, account by account. An account whose stripped
  token is empty has the skip entry, which is two lines (the account, then "Token not
  configured, skipped") when the name has no line break; any other account has the success
  line or a failure line with the reason, one line when it has no line break.
\<close>

theorem summary_one_entry_per_account:
  assumes "build_summary w = (tr, Inr summary)"
  shows "\<exists>accounts t messages.
           validate_env_variables w = Inr (JArr accounts) \<and>
           plus_hours (utcnow w) 8 = Inr t \<and>
           length messages = length accounts \<and>
           list_all2 (is_entry_of w) accounts messages \<and>
           split_lines summary =
             [[0x23F0] @ ascii '' '' @ [0x5317, 0x4EAC, 0x65F6, 0x95F4] @ ascii '': '' @ strftime t, []] @
             concat (map split_lines messages) @
             [[], [0x2705] @ ascii '' '' @ [0x4EFB, 0x52A1, 0x6267, 0x884C, 0x5B8C, 0x6210]]"
proof -
  from build_summary_ok [OF assms] obtain accounts t messages
    where v: "validate_env_variables w = Inr (JArr accounts)" and ne: "accounts \<noteq> []"
      and t: "plus_hours (utcnow w) 8 = Inr t"
      and r: "run_accounts w [] [] accounts = (tr, Inr messages)"
      and s: "summary = summary_text (strftime t) messages"
    by blast
  from run_accounts_entries [OF r] have e: "list_all2 (is_entry_of w) accounts messages"
    by simp
  then have l: "length messages = length accounts"
    by (simp add: list_all2_lengthD)
  with ne have "messages \<noteq> []"
    by auto
  from summary_text_lines [OF this strftime_one_line] s
  have "split_lines summary =
             [[0x23F0] @ ascii '' '' @ [0x5317, 0x4EAC, 0x65F6, 0x95F4] @ ascii '': '' @ strftime t, []] @
             concat (map split_lines messages) @
             [[], [0x2705] @ ascii '' '' @ [0x4EFB, 0x52A1, 0x6267, 0x884C, 0x5B8C, 0x6210]]"
    by simp
  with v t l e show ?thesis
    by blast
qed

text \<open>
  The sample run has three accounts: \<^verbatim>\<open>a\<close> is skipped (two lines), \<^verbatim>\<open>b\<close> succeeds and
  \<^verbatim>\<open>c\<close> fails with 401 (one line each).
\<close>

theorem summary_one_entry_per_account_witness:
  "(\<exists>accounts t messages.
      validate_env_variables sample_run = Inr (JArr accounts) \<and>
      plus_hours (utcnow sample_run) 8 = Inr t \<and>
      length messages = length accounts \<and>
      list_all2 (is_entry_of sample_run) accounts messages \<and>
      map_sum id split_lines (snd (build_summary sample_run)) =
        Inr ([[0x23F0] @ ascii '' '' @ [0x5317, 0x4EAC, 0x65F6, 0x95F4] @ ascii '': '' @ strftime t, []] @
             concat (map split_lines messages) @
             [[], [0x2705] @ ascii '' '' @ [0x4EFB, 0x52A1, 0x6267, 0x884C, 0x5B8C, 0x6210]]))
   \<and> map_sum id split_lines (snd (build_summary sample_run)) =
       Inr [[0x23F0] @ ascii '' '' @ [0x5317, 0x4EAC, 0x65F6, 0x95F4] @ ascii '': 2024-02-29 01:05'',
            [],
            [0x26A0, 0xFE0F] @ ascii '' '' @ [0x8D26, 0x6237] @ ascii '': a'',
            ascii ''Token '' @ [0x672A, 0x914D, 0x7F6E, 0xFF0C, 0x8DF3, 0x8FC7],
            [0x2705] @ ascii '' '' @ [0x8D26, 0x6237] @ ascii '': b Token '' @ [0x6821, 0x9A8C, 0x6210, 0x529F],
            [0x274C] @ ascii '' '' @ [0x8D26, 0x6237] @ ascii '': c Token '' @ [0x6821, 0x9A8C, 0x5931, 0x8D25] @ ascii '' | '' @ [0x539F, 0x56E0] @ ascii '': 401 Client Error: Unauthorized for url: https://app.koyeb.com/v1/apps'',
            [],
            [0x2705] @ ascii '' '' @ [0x4EFB, 0x52A1, 0x6267, 0x884C, 0x5B8C, 0x6210]]"
proof -
  obtain tr summary where h: "build_summary sample_run = (tr, Inr summary)"
    using sample_run_summary by blast
  from summary_one_entry_per_account [OF h] h
  have "\<exists>accounts t messages.
      validate_env_variables sample_run = Inr (JArr accounts) \<and>
      plus_hours (utcnow sample_run) 8 = Inr t \<and>
      length messages = length accounts \<and>
      list_all2 (is_entry_of sample_run) accounts messages \<and>
      map_sum id split_lines (snd (build_summary sample_run)) =
        Inr ([[0x23F0] @ ascii '' '' @ [0x5317, 0x4EAC, 0x65F6, 0x95F4] @ ascii '': '' @ strftime t, []] @
             concat (map split_lines messages) @
             [[], [0x2705] @ ascii '' '' @ [0x4EFB, 0x52A1, 0x6267, 0x884C, 0x5B8C, 0x6210]])"
    by simp
  moreover have "map_sum id split_lines (snd (build_summary sample_run)) =
       Inr [[0x23F0] @ ascii '' '' @ [0x5317, 0x4EAC, 0x65F6, 0x95F4] @ ascii '': 2024-02-29 01:05'',
            [],
            [0x26A0, 0xFE0F] @ ascii '' '' @ [0x8D26, 0x6237] @ ascii '': a'',
            ascii ''Token '' @ [0x672A, 0x914D, 0x7F6E, 0xFF0C, 0x8DF3, 0x8FC7],
            [0x2705] @ ascii '' '' @ [0x8D26, 0x6237] @ ascii '': b Token '' @ [0x6821, 0x9A8C, 0x6210, 0x529F],
            [0x274C] @ ascii '' '' @ [0x8D26, 0x6237] @ ascii '': c Token '' @ [0x6821, 0x9A8C, 0x5931, 0x8D25] @ ascii '' | '' @ [0x539F, 0x56E0] @ ascii '': 401 Client Error: Unauthorized for url: https://app.koyeb.com/v1/apps'',
            [],
            [0x2705] @ ascii '' '' @ [0x4EFB, 0x52A1, 0x6267, 0x884C, 0x5B8C, 0x6210]]"
    by (simp add: sample_run_text ascii_def)
  ultimately show ?thesis
    by blast
qed

text \<open>
  Claim C1 as stated gives the summary one result line per account. For the configuration
  \<^verbatim>\<open>[{"name": "a", "token": ""}, {"name": "b", "token": "valid"}]\<close> the summary has
  three result lines for the two accounts: two for the skipped account and one for the
  checked one.
\<close>

theorem two_accounts_three_lines_counterexample:
  "map_sum id split_lines
     (snd (build_summary
        (parsed_run (JArr [account (ascii ''a'') [], account (ascii ''b'') (ascii ''valid'')])))) =
     Inr [[0x23F0] @ ascii '' '' @ [0x5317, 0x4EAC, 0x65F6, 0x95F4] @ ascii '': 2024-02-29 01:05'',
          [],
          [0x26A0, 0xFE0F] @ ascii '' '' @ [0x8D26, 0x6237] @ ascii '': a'',
          ascii ''Token '' @ [0x672A, 0x914D, 0x7F6E, 0xFF0C, 0x8DF3, 0x8FC7],
          [0x2705] @ ascii '' '' @ [0x8D26, 0x6237] @ ascii '': b Token '' @ [0x6821, 0x9A8C, 0x6210, 0x529F],
          [],
          [0x2705] @ ascii '' '' @ [0x4EFB, 0x52A1, 0x6267, 0x884C, 0x5B8C, 0x6210]]"
  by (simp add: parsed_run_def sample_defs step_defs dec_values koyeb_url_def summary_header_def
        summary_footer_def skip_entry_def success_entry_def ascii_def)

section \<open>The layout of the summary\<close>

text \<open>
  Claim C7, as the code has it. For a clock in the years 1000 to 9999, the summary built on
  the normal path is: the header line, which is the fixed label followed by the clock's
  UTC time plus eight hours in the form \<^verbatim>\<open>YYYY-MM-DD HH:MM\<close>; an empty line; the result
  entries of the accounts, one per account and in their order, joined by line breaks; an
  empty line; and the fixed completion line. The entry of a skipped account is two lines
  (the account, then "Token not configured, skipped") when the account's name has no line
  break, and the entry of a checked account is one line when its name and the reason of a
  failure have no line break. When the bot token and the chat id are set, the first
  \<^verbatim>\<open>requests.post\<close> of the run carries this summary as its text.
\<close>

theorem summary_layout:
  assumes "valid_datetime (utcnow w)" and "1000 \<le> year (utcnow w)"
    and "build_summary w = (tr, Inr summary)"
  shows "(\<exists>t accounts messages.
            plus_hours (utcnow w) 8 = Inr t \<and> ymd_hm_shape (strftime t) \<and>
            validate_env_variables w = Inr (JArr accounts) \<and>
            list_all2 (is_entry_of w) accounts messages \<and>
            summary =
              [0x23F0] @ ascii '' '' @ [0x5317, 0x4EAC, 0x65F6, 0x95F4] @ ascii '': '' @ strftime t @ [0xA, 0xA] @
              join [0xA] messages @
              [0xA, 0xA, 0x2705] @ ascii '' '' @ [0x4EFB, 0x52A1, 0x6267, 0x884C, 0x5B8C, 0x6210] \<and>
            split_lines summary =
              [[0x23F0] @ ascii '' '' @ [0x5317, 0x4EAC, 0x65F6, 0x95F4] @ ascii '': '' @ strftime t, []] @
              concat (map split_lines messages) @
              [[], [0x2705] @ ascii '' '' @ [0x4EFB, 0x52A1, 0x6267, 0x884C, 0x5B8C, 0x6210]])
    \<and> (env_value (getenv w (ascii ''TG_BOT_TOKEN'')) \<noteq> []
         \<and> env_value (getenv w (ascii ''TG_CHAT_ID'')) \<noteq> [] \<longrightarrow>
        (\<exists>rest. filter is_post (fst (main w)) =
           HttpPost (ascii ''https://api.telegram.org/bot'' @ env_value (getenv w (ascii ''TG_BOT_TOKEN'')) @ ascii ''/sendMessage'')
       [(ascii ''chat_id'', env_value (getenv w (ascii ''TG_CHAT_ID''))),
        (ascii ''text'', summary),
        (ascii ''parse_mode'', ascii ''Markdown'')]
       30 # rest))"
proof -
  from build_summary_ok [OF assms(3)] obtain accounts t messages
    where v: "validate_env_variables w = Inr (JArr accounts)" and ne: "accounts \<noteq> []"
      and t: "plus_hours (utcnow w) 8 = Inr t"
      and r: "run_accounts w [] [] accounts = (tr, Inr messages)"
      and s: "summary = summary_text (strftime t) messages"
    by blast
  from plus_hours_valid [OF assms(1) t] have vt: "valid_datetime t" .
  from plus_hours_year [OF t] assms(2) have yt: "1000 \<le> year t"
    by simp
  note shape = strftime_shape [OF vt yt]
  from run_accounts_entries [OF r] have e: "list_all2 (is_entry_of w) accounts messages"
    by simp
  then have "length messages = length accounts"
    by (simp add: list_all2_lengthD)
  with ne have "messages \<noteq> []"
    by auto
  from summary_text_lines [OF this strftime_one_line] s
  have l: "split_lines summary =
              [[0x23F0] @ ascii '' '' @ [0x5317, 0x4EAC, 0x65F6, 0x95F4] @ ascii '': '' @ strftime t, []] @
              concat (map split_lines messages) @
              [[], [0x2705] @ ascii '' '' @ [0x4EFB, 0x52A1, 0x6267, 0x884C, 0x5B8C, 0x6210]]"
    by simp
  from s have x: "summary =
              [0x23F0] @ ascii '' '' @ [0x5317, 0x4EAC, 0x65F6, 0x95F4] @ ascii '': '' @ strftime t @ [0xA, 0xA] @
              join [0xA] messages @
              [0xA, 0xA, 0x2705] @ ascii '' '' @ [0x4EFB, 0x52A1, 0x6267, 0x884C, 0x5B8C, 0x6210]"
    by (simp only: summary_text_text)
  have p: "\<exists>rest. filter is_post (fst (main w)) =
           HttpPost (ascii ''https://api.telegram.org/bot'' @ env_value (getenv w (ascii ''TG_BOT_TOKEN'')) @ ascii ''/sendMessage'')
       [(ascii ''chat_id'', env_value (getenv w (ascii ''TG_CHAT_ID''))),
        (ascii ''text'', summary),
        (ascii ''parse_mode'', ascii ''Markdown'')]
       30 # rest"
    if "env_value (getenv w (ascii ''TG_BOT_TOKEN'')) \<noteq> []"
      and "env_value (getenv w (ascii ''TG_CHAT_ID'')) \<noteq> []"
    using main_posts_summary(1) [OF assms(3) refl that(1) refl that(2)]
    unfolding tg_request_text .
  from t shape v e x l p show ?thesis
    by blast
qed

text \<open>
  The summary of the sample run, at 17:05 UTC on 28 February 2024: the time shown is
  01:05 on 29 February, and the summary is posted as built.
\<close>

theorem summary_layout_witness:
  "valid_datetime (utcnow sample_run) \<and> 1000 \<le> year (utcnow sample_run)
   \<and> plus_hours (utcnow sample_run) 8
       = Inr \<lparr> year = 2024, month = 2, day = 29, hour = 1, minute = 5 \<rparr>
   \<and> strftime \<lparr> year = 2024, month = 2, day = 29, hour = 1, minute = 5 \<rparr>
       = ascii ''2024-02-29 01:05''
   \<and> ymd_hm_shape (ascii ''2024-02-29 01:05'')
   \<and> snd (build_summary sample_run) =
       Inr ([0x23F0] @ ascii '' '' @ [0x5317, 0x4EAC, 0x65F6, 0x95F4] @ ascii '': 2024-02-29 01:05'' @ [0xA, 0xA, 0x26A0, 0xFE0F] @ ascii '' '' @ [0x8D26, 0x6237] @ ascii '': a'' @ [0xA] @ ascii ''Token '' @ [0x672A, 0x914D, 0x7F6E, 0xFF0C, 0x8DF3, 0x8FC7, 0xA, 0x2705] @ ascii '' '' @ [0x8D26, 0x6237] @ ascii '': b Token '' @ [0x6821, 0x9A8C, 0x6210, 0x529F, 0xA, 0x274C] @ ascii '' '' @ [0x8D26, 0x6237] @ ascii '': c Token '' @ [0x6821, 0x9A8C, 0x5931, 0x8D25] @ ascii '' | '' @ [0x539F, 0x56E0] @ ascii '': 401 Client Error: Unauthorized for url: https://app.koyeb.com/v1/apps'' @ [0xA, 0xA, 0x2705] @ ascii '' '' @ [0x4EFB, 0x52A1, 0x6267, 0x884C, 0x5B8C, 0x6210])
   \<and> (\<exists>rest. filter is_post (fst (main sample_run)) =
        HttpPost (ascii ''https://api.telegram.org/bot'' @ ascii ''BOT'' @ ascii ''/sendMessage'')
       [(ascii ''chat_id'', ascii ''42''),
        (ascii ''text'', [0x23F0] @ ascii '' '' @ [0x5317, 0x4EAC, 0x65F6, 0x95F4] @ ascii '': 2024-02-29 01:05'' @ [0xA, 0xA, 0x26A0, 0xFE0F] @ ascii '' '' @ [0x8D26, 0x6237] @ ascii '': a'' @ [0xA] @ ascii ''Token '' @ [0x672A, 0x914D, 0x7F6E, 0xFF0C, 0x8DF3, 0x8FC7, 0xA, 0x2705] @ ascii '' '' @ [0x8D26, 0x6237] @ ascii '': b Token '' @ [0x6821, 0x9A8C, 0x6210, 0x529F, 0xA, 0x274C] @ ascii '' '' @ [0x8D26, 0x6237] @ ascii '': c Token '' @ [0x6821, 0x9A8C, 0x5931, 0x8D25] @ ascii '' | '' @ [0x539F, 0x56E0] @ ascii '': 401 Client Error: Unauthorized for url: https://app.koyeb.com/v1/apps'' @ [0xA, 0xA, 0x2705] @ ascii '' '' @ [0x4EFB, 0x52A1, 0x6267, 0x884C, 0x5B8C, 0x6210]),
        (ascii ''parse_mode'', ascii ''Markdown'')]
       30 # rest)"
proof -
  have v: "valid_datetime (utcnow sample_run)"
    by (simp add: sample_defs valid_datetime_def days_in_month_def is_leap_def)
  have y: "1000 \<le> year (utcnow sample_run)"
    by (simp add: sample_defs)
  have p: "plus_hours (utcnow sample_run) 8
       = Inr \<lparr> year = 2024, month = 2, day = 29, hour = 1, minute = 5 \<rparr>"
    by (simp add: sample_defs plus_hours_def next_day_def days_in_month_def is_leap_def)
  have f: "strftime \<lparr> year = 2024, month = 2, day = 29, hour = 1, minute = 5 \<rparr>
       = ascii ''2024-02-29 01:05''"
    by (simp add: strftime_def zfill_def dec_values ascii_def)
  obtain tr summary where b: "build_summary sample_run = (tr, Inr summary)"
    using sample_run_summary by blast
  with sample_run_text have s: "summary =
       [0x23F0] @ ascii '' '' @ [0x5317, 0x4EAC, 0x65F6, 0x95F4] @ ascii '': 2024-02-29 01:05'' @ [0xA, 0xA, 0x26A0, 0xFE0F] @ ascii '' '' @ [0x8D26, 0x6237] @ ascii '': a'' @ [0xA] @ ascii ''Token '' @ [0x672A, 0x914D, 0x7F6E, 0xFF0C, 0x8DF3, 0x8FC7, 0xA, 0x2705] @ ascii '' '' @ [0x8D26, 0x6237] @ ascii '': b Token '' @ [0x6821, 0x9A8C, 0x6210, 0x529F, 0xA, 0x274C] @ ascii '' '' @ [0x8D26, 0x6237] @ ascii '': c Token '' @ [0x6821, 0x9A8C, 0x5931, 0x8D25] @ ascii '' | '' @ [0x539F, 0x56E0] @ ascii '': 401 Client Error: Unauthorized for url: https://app.koyeb.com/v1/apps'' @ [0xA, 0xA, 0x2705] @ ascii '' '' @ [0x4EFB, 0x52A1, 0x6267, 0x884C, 0x5B8C, 0x6210]"
    by simp
  have c: "env_value (getenv sample_run (ascii ''TG_BOT_TOKEN'')) = ascii ''BOT''"
    "env_value (getenv sample_run (ascii ''TG_CHAT_ID'')) = ascii ''42''"
    unfolding sample_run_def by (rule sample_world_credentials)+
  have e: "ascii ''BOT'' \<noteq> []" "ascii ''42'' \<noteq> []"
    by (simp_all add: ascii_def)
  note l = summary_layout [OF v y b]
  from l p f have 1: "ymd_hm_shape (ascii ''2024-02-29 01:05'')"
    by auto
  from l c e have "\<exists>rest. filter is_post (fst (main sample_run)) =
        HttpPost (ascii ''https://api.telegram.org/bot'' @ ascii ''BOT'' @ ascii ''/sendMessage'')
       [(ascii ''chat_id'', ascii ''42''),
        (ascii ''text'', summary),
        (ascii ''parse_mode'', ascii ''Markdown'')]
       30 # rest"
    by simp
  with s have 2: "\<exists>rest. filter is_post (fst (main sample_run)) =
        HttpPost (ascii ''https://api.telegram.org/bot'' @ ascii ''BOT'' @ ascii ''/sendMessage'')
       [(ascii ''chat_id'', ascii ''42''),
        (ascii ''text'', [0x23F0] @ ascii '' '' @ [0x5317, 0x4EAC, 0x65F6, 0x95F4] @ ascii '': 2024-02-29 01:05'' @ [0xA, 0xA, 0x26A0, 0xFE0F] @ ascii '' '' @ [0x8D26, 0x6237] @ ascii '': a'' @ [0xA] @ ascii ''Token '' @ [0x672A, 0x914D, 0x7F6E, 0xFF0C, 0x8DF3, 0x8FC7, 0xA, 0x2705] @ ascii '' '' @ [0x8D26, 0x6237] @ ascii '': b Token '' @ [0x6821, 0x9A8C, 0x6210, 0x529F, 0xA, 0x274C] @ ascii '' '' @ [0x8D26, 0x6237] @ ascii '': c Token '' @ [0x6821, 0x9A8C, 0x5931, 0x8D25] @ ascii '' | '' @ [0x539F, 0x56E0] @ ascii '': 401 Client Error: Unauthorized for url: https://app.koyeb.com/v1/apps'' @ [0xA, 0xA, 0x2705] @ ascii '' '' @ [0x4EFB, 0x52A1, 0x6267, 0x884C, 0x5B8C, 0x6210]),
        (ascii ''parse_mode'', ascii ''Markdown'')]
       30 # rest"
    by simp
  from v y p f 1 2 sample_run_text show ?thesis
    by blast
qed

text \<open>
  Claim C7 as stated gives the summary one line per account between the header line and
  the completion line. For the configuration \<^verbatim>\<open>[{"name": "a", "token": ""}]\<close> the
  summary has six lines: the header, an empty line, the two lines of the skipped account's
  entry, an empty line and the completion line.
\<close>

theorem skipped_account_two_lines_counterexample:
  "map_sum id split_lines (snd (build_summary (parsed_run (JArr [account (ascii ''a'') []])))) =
     Inr [[0x23F0] @ ascii '' '' @ [0x5317, 0x4EAC, 0x65F6, 0x95F4] @ ascii '': 2024-02-29 01:05'',
          [],
          [0x26A0, 0xFE0F] @ ascii '' '' @ [0x8D26, 0x6237] @ ascii '': a'',
          ascii ''Token '' @ [0x672A, 0x914D, 0x7F6E, 0xFF0C, 0x8DF3, 0x8FC7],
          [],
          [0x2705] @ ascii '' '' @ [0x4EFB, 0x52A1, 0x6267, 0x884C, 0x5B8C, 0x6210]]"
  by (simp add: parsed_run_def sample_defs step_defs dec_values summary_header_def
        summary_footer_def skip_entry_def ascii_def)

end
